theory Spec2Isabelle
  imports Main "HOL-Library.AList" "HOL-Library.Sublist"
begin

section \<open>Python strings\<close>

text \<open>
  A Python \<open>str\<close> is modelled as a \<open>string\<close> whose characters are the code points
  below 256.  The functions below follow the built-in methods the pipeline engine
  calls: \<open>str.isspace\<close>, \<open>str.strip\<close>, \<open>str.split\<close> (with and without a
  separator), \<open>str.startswith\<close>, the \<open>in\<close> operator on strings, \<open>str.replace\<close>,
  \<open>str.lower\<close>, \<open>int(str)\<close> and the rendering of an integer by an f-string.
\<close>

definition py_isspace :: "char \<Rightarrow> bool" where
  "py_isspace c = ((of_char c :: nat) \<in> {9, 10, 11, 12, 13, 28, 29, 30, 31, 32, 133, 160})"

definition py_strip :: "string \<Rightarrow> string" where
  "py_strip s = rev (dropWhile py_isspace (rev (dropWhile py_isspace s)))"

text \<open>\<open>s.split(c)\<close> for a one-character separator: never empty, keeps empty fields.\<close>

fun py_split_on :: "char \<Rightarrow> string \<Rightarrow> string list" where
  "py_split_on c [] = [[]]"
| "py_split_on c (x # xs) =
     (if x = c then [] # py_split_on c xs
      else (case py_split_on c xs of
              [] \<Rightarrow> [[x]]
            | w # ws \<Rightarrow> (x # w) # ws))"

text \<open>\<open>s.split()\<close>: the maximal runs of non-whitespace characters. The first argument
  holds the characters of the current word, newest first.\<close>

fun py_split_ws_from :: "string \<Rightarrow> string \<Rightarrow> string list" where
  "py_split_ws_from cur [] = (if cur = [] then [] else [rev cur])"
| "py_split_ws_from cur (x # xs) =
     (if py_isspace x
      then (if cur = [] then py_split_ws_from [] xs else rev cur # py_split_ws_from [] xs)
      else py_split_ws_from (x # cur) xs)"

definition py_split_ws :: "string \<Rightarrow> string list" where
  "py_split_ws s = py_split_ws_from [] s"

definition py_startswith :: "string \<Rightarrow> string \<Rightarrow> bool" where
  "py_startswith s p = (take (length p) s = p)"

text \<open>\<open>p in s\<close>: \<open>p\<close> occurs in \<open>s\<close> as a contiguous substring.\<close>

fun py_in :: "string \<Rightarrow> string \<Rightarrow> bool" where
  "py_in p [] = (p = [])"
| "py_in p (x # xs) = (py_startswith (x # xs) p \<or> py_in p xs)"

text \<open>\<open>s.replace(old, new)\<close> for a non-empty \<open>old\<close>: every occurrence, left to right,
  without overlap.  The fuel argument bounds the number of characters still to scan.\<close>

fun py_replace_fuel :: "nat \<Rightarrow> string \<Rightarrow> string \<Rightarrow> string \<Rightarrow> string" where
  "py_replace_fuel 0 old new s = s"
| "py_replace_fuel (Suc n) old new s =
     (case s of
        [] \<Rightarrow> []
      | x # xs \<Rightarrow>
          (if py_startswith s old
           then new @ py_replace_fuel n old new (drop (length old) s)
           else x # py_replace_fuel n old new xs))"

definition py_replace :: "string \<Rightarrow> string \<Rightarrow> string \<Rightarrow> string" where
  "py_replace s old new = py_replace_fuel (length s) old new s"



definition is_digit :: "char \<Rightarrow> bool" where
  "is_digit c = (48 \<le> (of_char c :: nat) \<and> (of_char c :: nat) \<le> 57)"

definition digit_val :: "char \<Rightarrow> nat" where
  "digit_val c = (of_char c :: nat) - 48"

definition digit_char :: "nat \<Rightarrow> char" where
  "digit_char d = char_of (48 + d)"

definition parse_digits :: "string \<Rightarrow> nat" where
  "parse_digits ds = foldl (\<lambda>acc c. 10 * acc + digit_val c) 0 ds"

fun no_double_underscore :: "string \<Rightarrow> bool" where
  "no_double_underscore (a # b # rest) =
     (\<not> (a = CHR ''_'' \<and> b = CHR ''_'') \<and> no_double_underscore (b # rest))"
| "no_double_underscore _ = True"

text \<open>The digit part of an integer literal accepted by \<open>int(str)\<close>: digits, with single
  underscores allowed between two digits.\<close>

definition int_body_ok :: "string \<Rightarrow> bool" where
  "int_body_ok b =
     (b \<noteq> [] \<and> is_digit (hd b) \<and> is_digit (last b) \<and>
      list_all (\<lambda>c. is_digit c \<or> c = CHR ''_'') b \<and> no_double_underscore b)"

definition int_body_val :: "string \<Rightarrow> nat" where
  "int_body_val b = parse_digits (filter (\<lambda>c. c \<noteq> CHR ''_'') b)"

text \<open>\<open>int(s)\<close> in base 10; \<open>None\<close> stands for \<open>ValueError\<close>.  Surrounding whitespace
  is ignored and one sign is allowed.  The interpreter's configurable guard on literals
  of more than 4300 digits is left out: version strings live in a 50-character column.\<close>

definition py_int :: "string \<Rightarrow> int option" where
  "py_int s =
     (case py_strip s of
        [] \<Rightarrow> None
      | c # rest \<Rightarrow>
          if c = CHR ''-'' then (if int_body_ok rest then Some (- int (int_body_val rest)) else None)
          else if c = CHR ''+'' then (if int_body_ok rest then Some (int (int_body_val rest)) else None)
          else (if int_body_ok (c # rest) then Some (int (int_body_val (c # rest))) else None))"

fun str_nat :: "nat \<Rightarrow> string" where
  "str_nat n = (if n < 10 then [digit_char n] else str_nat (n div 10) @ [digit_char (n mod 10)])"

declare str_nat.simps [simp del]

definition str_int :: "int \<Rightarrow> string" where
  "str_int i = (if i < 0 then CHR ''-'' # str_nat (nat (- i)) else str_nat (nat i))"

section \<open>Version ledger (services/version\_history\_service.py)\<close>

text \<open>
  \<open>increment_version\<close>: the version string is split at the dots, the first three parts
  are read as integers, and the action decides the bump.  Any exception in the body
  (fewer than three parts, a part that is not an integer) is swallowed by the bare
  \<open>except\<close>, which returns \<open>"1.0.0"\<close>.  An action that is in neither list leaves the
  three numbers as they were.
\<close>

definition increment_version :: "string \<Rightarrow> string \<Rightarrow> string" where
  "increment_version current_version action_type =
     (case py_split_on CHR ''.'' current_version of
        p0 # p1 # p2 # _ \<Rightarrow>
          (case (py_int p0, py_int p1, py_int p2) of
             (Some major, Some minor, Some patch) \<Rightarrow>
               (let (minor', patch') =
                      (if action_type \<in> set [''validate'', ''generate_code''] then (minor + 1, 0)
                       else if action_type \<in> set [''edit_logic'', ''safety_check''] then (minor, patch + 1)
                       else (minor, patch))
                in str_int major @ ''.'' @ str_int minor' @ ''.'' @ str_int patch')
           | _ \<Rightarrow> ''1.0.0'')
      | _ \<Rightarrow> ''1.0.0'')"


text \<open>\<open>sep.join(parts)\<close>.\<close>

fun py_join :: "string \<Rightarrow> string list \<Rightarrow> string" where
  "py_join sep [] = []"
| "py_join sep [x] = x"
| "py_join sep (x # y # rest) = x @ sep @ py_join sep (y # rest)"

definition nl :: string where
  "nl = [CHR 0x0A]"

section \<open>Dictionaries and values\<close>

text \<open>
  The values the engine stores in its untyped dictionaries.  A dictionary whose order
  of keys matters is an association list; \<open>d.get(k, default)\<close> is \<open>py_get\<close>, and
  \<open>{**d, **e}\<close> is \<open>dict_merge\<close>, which keeps the position of a key that is already
  there and appends a new one, as Python does.
\<close>

datatype pyval = PyNone | PyBool bool | PyInt int | PyStr string

type_synonym pydict = "(string \<times> pyval) list"

definition py_get :: "pydict \<Rightarrow> string \<Rightarrow> pyval \<Rightarrow> pyval" where
  "py_get d k dflt = (case map_of d k of None \<Rightarrow> dflt | Some v \<Rightarrow> v)"

definition dict_merge :: "pydict \<Rightarrow> pydict \<Rightarrow> pydict" where
  "dict_merge d e = foldl (\<lambda>acc (k, v). AList.update k v acc) d e"

text \<open>Truthiness of a value, and its rendering inside an f-string.\<close>

fun truthy :: "pyval \<Rightarrow> bool" where
  "truthy PyNone = False"
| "truthy (PyBool b) = b"
| "truthy (PyInt i) = (i \<noteq> 0)"
| "truthy (PyStr s) = (s \<noteq> [])"

fun py_format :: "pyval \<Rightarrow> string" where
  "py_format PyNone = ''None''"
| "py_format (PyBool b) = (if b then ''True'' else ''False'')"
| "py_format (PyInt i) = str_int i"
| "py_format (PyStr s) = s"

section \<open>Data model (db/models)\<close>

text \<open>
  A label is the dictionary the code parser emits for one row of a label table.  A key
  that is missing reads as the empty string through \<open>label.get(key, '')\<close>, so the
  record holds the empty string there.
\<close>

record label =
  lbl_name :: string
  lbl_data_type :: string
  lbl_class :: string
  lbl_device :: string
  lbl_initial_value :: string
  lbl_constant :: bool
  lbl_comment :: string

record program_block =
  pb_stage :: string
  pb_name :: string
  pb_execution_type :: string
  pb_local_labels :: "label list"
  pb_code :: string

record st_function =
  fn_stage :: string
  fn_name :: string
  fn_with_en :: bool
  fn_result_type :: string
  fn_local_labels :: "label list"
  fn_code :: string

record function_block =
  fb_stage :: string
  fb_name :: string
  fb_type :: string
  fb_with_en :: bool
  fb_local_labels :: "label list"
  fb_code :: string

record project =
  p_id :: nat
  p_name :: string
  owner_id :: nat

record stage =
  s_id :: nat
  s_project_id :: nat
  stage_number :: int
  stage_name :: string
  stage_type :: string
  description :: "string option"
  original_logic :: string
  edited_logic :: "string option"
  is_validated :: bool
  is_finalized :: bool
  version_number :: string
  last_action :: "string option"
  last_action_timestamp :: "nat option"

record gen_metadata =
  md_program_name :: string
  md_execution_type :: string
  md_generated_at :: string

record generated_code =
  gc_id :: nat
  gc_project_id :: nat
  gc_stage_id :: "nat option"
  global_labels :: "label list"
  local_labels :: "label list"
  program_body :: string
  program_blocks :: "program_block list"
  st_functions :: "st_function list"
  function_blocks :: "function_block list"
  program_name :: string
  execution_type :: string
  code_metadata :: gen_metadata
  created_at :: nat

datatype version_level = EVENT | SESSION | CHECKPOINT

record version_history =
  vh_id :: nat
  vh_code_id :: nat
  vh_stage_id :: nat
  vh_user_id :: nat
  vh_level :: version_level
  vh_version_number :: string
  old_code :: string
  new_code :: string
  diff :: string
  vh_timestamp :: nat
  version_metadata :: pydict

text \<open>
  The database session: one list per table, in insertion order, the counters behind
  the auto-incremented primary keys, and the clock that \<open>datetime.utcnow()\<close> reads.
\<close>

record db =
  projects :: "project list"
  stages :: "stage list"
  codes :: "generated_code list"
  history :: "version_history list"
  next_code_id :: nat
  next_history_id :: nat
  clock :: nat

definition utcnow :: "db \<Rightarrow> nat \<times> db" where
  "utcnow d = (clock d, d\<lparr>clock := Suc (clock d)\<rparr>)"

text \<open>\<open>query(...).filter(...).first()\<close>, and the update of the row it returned.\<close>

definition first_where :: "('a \<Rightarrow> bool) \<Rightarrow> 'a list \<Rightarrow> 'a option" where
  "first_where P xs = (case filter P xs of [] \<Rightarrow> None | x # _ \<Rightarrow> Some x)"

fun update_first :: "('a \<Rightarrow> bool) \<Rightarrow> ('a \<Rightarrow> 'a) \<Rightarrow> 'a list \<Rightarrow> 'a list" where
  "update_first P f [] = []"
| "update_first P f (x # xs) = (if P x then f x # xs else x # update_first P f xs)"

section \<open>Repositories (db/repositories)\<close>

definition stage_get_by_id :: "db \<Rightarrow> nat \<Rightarrow> stage option" where
  "stage_get_by_id d sid = first_where (\<lambda>s. s_id s = sid) (stages d)"

definition project_get_by_id :: "db \<Rightarrow> nat \<Rightarrow> project option" where
  "project_get_by_id d pid = first_where (\<lambda>p. p_id p = pid) (projects d)"

text \<open>\<open>StageRepository.get_by_project\<close>: the stages of the project, ordered by stage
  number (a stable sort of the table).\<close>

definition stage_get_by_project :: "db \<Rightarrow> nat \<Rightarrow> stage list" where
  "stage_get_by_project d pid =
     sort_key stage_number (filter (\<lambda>s. s_project_id s = pid) (stages d))"

definition code_delete_by_stage :: "nat \<Rightarrow> db \<Rightarrow> db" where
  "code_delete_by_stage sid d =
     d\<lparr>codes := filter (\<lambda>c. gc_stage_id c \<noteq> Some sid) (codes d)\<rparr>"

definition code_create ::
  "nat \<Rightarrow> nat option \<Rightarrow> label list \<Rightarrow> label list \<Rightarrow> string \<Rightarrow> string \<Rightarrow> string \<Rightarrow>
   gen_metadata \<Rightarrow> program_block list \<Rightarrow> st_function list \<Rightarrow> function_block list \<Rightarrow>
   db \<Rightarrow> generated_code \<times> db" where
  "code_create project_id stage_id gl ll body pname etype metadata pbs fns fbs d =
     (let (now, d1) = utcnow d;
          code = \<lparr>gc_id = next_code_id d1, gc_project_id = project_id, gc_stage_id = stage_id,
                  global_labels = gl, local_labels = ll, program_body = body,
                  program_blocks = pbs, st_functions = fns, function_blocks = fbs,
                  program_name = pname, execution_type = etype, code_metadata = metadata,
                  created_at = now\<rparr>
      in (code, d1\<lparr>codes := codes d1 @ [code], next_code_id := Suc (next_code_id d1)\<rparr>))"

section \<open>Global labels (services/global\_labels\_service.py)\<close>

text \<open>
  \<open>merge_global_labels\<close>: the loop over the new labels carries the merged list and the
  two sets of devices and names seen so far.
\<close>

fun merge_loop :: "label list \<Rightarrow> string set \<Rightarrow> string set \<Rightarrow> label list \<Rightarrow> label list" where
  "merge_loop merged existing_devices existing_names [] = merged"
| "merge_loop merged existing_devices existing_names (new_label # rest) =
     (let label_name = lbl_name new_label;
          label_device = lbl_device new_label;
          identifier = (if label_device \<noteq> [] then label_device else label_name)
      in if identifier \<noteq> [] \<and> identifier \<notin> existing_devices \<and> label_name \<notin> existing_names
         then merge_loop (merged @ [new_label])
                (if label_device \<noteq> [] then insert label_device existing_devices else existing_devices)
                (if label_name \<noteq> [] then insert label_name existing_names else existing_names)
                rest
         else merge_loop merged existing_devices existing_names rest)"

definition merge_global_labels :: "label list \<Rightarrow> label list \<Rightarrow> label list" where
  "merge_global_labels existing_labels new_labels =
     merge_loop existing_labels
       (set (filter (\<lambda>dv. dv \<noteq> []) (map lbl_device existing_labels)))
       (set (filter (\<lambda>nm. nm \<noteq> []) (map lbl_name existing_labels)))
       new_labels"

text \<open>\<open>update_all_stages_with_global_labels\<close>: every code row of the project that
  belongs to a stage receives the given list; the result is the number of rows.\<close>

definition update_all_stages_with_global_labels :: "nat \<Rightarrow> label list \<Rightarrow> db \<Rightarrow> nat \<times> db" where
  "update_all_stages_with_global_labels project_id gl d =
     (let hit = (\<lambda>c. gc_project_id c = project_id \<and> gc_stage_id c \<noteq> None)
      in (length (filter hit (codes d)),
          d\<lparr>codes := map (\<lambda>c. if hit c then c\<lparr>global_labels := gl\<rparr> else c) (codes d)\<rparr>))"

section \<open>Version entries (services/version\_history\_service.py)\<close>

text \<open>
  \<open>_generate_diff\<close>.  The unified diff itself is computed by the \<open>difflib\<close> library and
  is a parameter here; the method decides only whether it is called.
\<close>

definition generate_diff :: "(string \<Rightarrow> string \<Rightarrow> string) \<Rightarrow> string \<Rightarrow> string \<Rightarrow> string" where
  "generate_diff unified_diff old_text new_text =
     (if old_text = [] \<and> new_text = [] then [] else unified_diff old_text new_text)"

text \<open>\<open>data.get(key, '') if data else ''\<close>, for the text fields, which hold a string
  or \<open>None\<close> at every caller; \<open>None\<close> reads as the empty text.\<close>

definition data_text :: "pydict option \<Rightarrow> string \<Rightarrow> string" where
  "data_text dat key =
     (case dat of
        None \<Rightarrow> []
      | Some m \<Rightarrow> (if m = [] then []
                  else (case py_get m key (PyStr []) of PyStr t \<Rightarrow> t | _ \<Rightarrow> [])))"

text \<open>
  \<open>create_version_entry\<close>: reads the stage's version, bumps it, writes the new version
  and the action back to the stage when the stage exists, and appends one entry to
  the history table.
\<close>

definition create_version_entry ::
  "(string \<Rightarrow> string \<Rightarrow> string) \<Rightarrow> nat \<Rightarrow> nat \<Rightarrow> nat \<Rightarrow> string \<Rightarrow>
   pydict option \<Rightarrow> pydict option \<Rightarrow> pydict option \<Rightarrow> db \<Rightarrow> version_history \<times> db" where
  "create_version_entry unified_diff code_id stage_id user_id action_type old_data new_data metadata d =
     (let stage = stage_get_by_id d stage_id;
          old_version = (case stage of None \<Rightarrow> ''1.0.0'' | Some s \<Rightarrow> version_number s);
          new_version = increment_version old_version action_type;
          validation_count = length (filter (\<lambda>v. vh_stage_id v = stage_id) (history d));
          d1 = (case stage of
                  None \<Rightarrow> d
                | Some _ \<Rightarrow>
                    (let (now, d') = utcnow d
                     in d'\<lparr>stages := update_first (\<lambda>s. s_id s = stage_id)
                            (\<lambda>s. s\<lparr>version_number := new_version,
                                    last_action := Some action_type,
                                    last_action_timestamp := Some now\<rparr>) (stages d')\<rparr>));
          old_text = (if action_type = ''edit_logic'' then data_text old_data ''edited_logic''
                      else if action_type = ''generate_code'' then data_text old_data ''program_body''
                      else []);
          new_text = (if action_type = ''edit_logic'' then data_text new_data ''edited_logic''
                      else if action_type = ''generate_code'' then data_text new_data ''program_body''
                      else []);
          diff_text = generate_diff unified_diff old_text new_text;
          (now2, d2) = utcnow d1;
          version_entry =
            \<lparr>vh_id = next_history_id d2, vh_code_id = code_id, vh_stage_id = stage_id,
             vh_user_id = user_id, vh_level = EVENT, vh_version_number = new_version,
             old_code = old_text, new_code = new_text, diff = diff_text, vh_timestamp = now2,
             version_metadata =
               dict_merge [(''action'', PyStr action_type),
                           (''previous_version'', PyStr old_version),
                           (''new_version'', PyStr new_version),
                           (''validation_count'', PyInt (int validation_count))]
                          (case metadata of None \<Rightarrow> [] | Some m \<Rightarrow> m)\<rparr>
      in (version_entry,
          d2\<lparr>history := history d2 @ [version_entry], next_history_id := Suc (next_history_id d2)\<rparr>))"

text \<open>The action label of an entry, as \<open>get_version_summary\<close> reads it.\<close>

definition vh_action :: "version_history \<Rightarrow> pyval" where
  "vh_action v = py_get (version_metadata v) ''action'' PyNone"

text \<open>A run of actions on one stage, each recorded through \<open>create_version_entry\<close>
  with no data and no extra metadata.\<close>

fun record_actions ::
  "(string \<Rightarrow> string \<Rightarrow> string) \<Rightarrow> nat \<Rightarrow> nat \<Rightarrow> nat \<Rightarrow> string list \<Rightarrow> db \<Rightarrow> db" where
  "record_actions unified_diff code_id stage_id user_id [] d = d"
| "record_actions unified_diff code_id stage_id user_id (a # as) d =
     record_actions unified_diff code_id stage_id user_id as
       (snd (create_version_entry unified_diff code_id stage_id user_id a None None None d))"

section \<open>Code generation request (core/code\_generation/structured\_text\_generator.py)\<close>

text \<open>
  \<open>_build_generation_request\<close>.  The stage is the dictionary the route builds; the
  project context, when it is a non-empty dictionary, is given by its rendering.
\<close>

definition build_generation_request :: "pydict \<Rightarrow> string option \<Rightarrow> string" where
  "build_generation_request stage project_context =
     (let stage_number = py_get stage ''stage_number'' PyNone;
          stage_name = py_get stage ''stage_name'' PyNone;
          request = py_join nl
            [''Generate Structured Text code for this stage:'',
             [],
             ''STAGE INFORMATION:'',
             ''- Stage Number: '' @ py_format stage_number,
             ''- Stage Name: '' @ py_format stage_name,
             ''- Stage Type: '' @ py_format (py_get stage ''stage_type'' PyNone),
             ''- Description: '' @ py_format (py_get stage ''description'' PyNone),
             [],
             ''CONTROL LOGIC:'',
             py_format (py_get stage ''original_logic'' (py_get stage ''edited_logic'' (PyStr []))),
             [],
             []];
          request2 = (case project_context of
                        None \<Rightarrow> request
                      | Some ctx \<Rightarrow> request @ nl @ ''PROJECT CONTEXT:'' @ nl @ ctx @ nl)
      in request2 @ py_join nl
            [[],
             ''Generate the complete code following the EXACT format specified in your instructions.'',
             [],
             ''CRITICAL: For ALL Program Blocks, Functions, and Function Blocks you generate:'',
             ''- Include '' @ [CHR 0x22] @ ''Stage: '' @ py_format stage_number @ '' - ''
                @ py_format stage_name @ [CHR 0x22] @ '' in the metadata section'',
             ''- This ensures proper identification and organization'',
             [],
             ''Remember:'',
             ''- Generate Program Blocks, Functions, and Function Blocks as needed based on the control logic'',
             ''- Use proper device ranges'',
             ''- All variables must be in label tables'',
             ''- No device symbols in code body'',
             ''- Industrial-grade logic'',
             ''- Safety-first approach'',
             []])"

text \<open>\<open>StageValidator._build_validation_request\<close> picks the logic it sends with
  \<open>stage.get('edited_logic') or stage.get('original_logic', '')\<close>.\<close>

definition validation_logic :: "pydict \<Rightarrow> pyval" where
  "validation_logic stage =
     (let e = py_get stage ''edited_logic'' PyNone
      in if truthy e then e else py_get stage ''original_logic'' (PyStr []))"

section \<open>Generating the code of a project (api/routes/code\_generation.py)\<close>

datatype http_error = HTTPException nat string

text \<open>The dictionary \<open>StructuredTextGenerator.generate_code\<close> returns.\<close>

record gen_result =
  res_success :: bool
  res_stage_id :: nat
  res_stage_name :: string
  res_global_labels :: "label list"
  res_local_labels :: "label list"
  res_program_body :: string
  res_program_blocks :: "program_block list"
  res_functions :: "st_function list"
  res_function_blocks :: "function_block list"
  res_metadata :: gen_metadata

record generated_code_response =
  rsp_success :: bool
  rsp_stage_id :: nat
  rsp_stage_name :: string
  rsp_global_labels :: "label list"
  rsp_local_labels :: "label list"
  rsp_program_body :: string
  rsp_metadata :: gen_metadata
  rsp_program_blocks :: "program_block list"
  rsp_functions :: "st_function list"
  rsp_function_blocks :: "function_block list"

definition opt_str :: "string option \<Rightarrow> pyval" where
  "opt_str x = (case x of None \<Rightarrow> PyNone | Some t \<Rightarrow> PyStr t)"

definition stage_data :: "stage \<Rightarrow> pydict" where
  "stage_data stg =
     [(''id'', PyInt (int (s_id stg))),
      (''stage_number'', PyInt (stage_number stg)),
      (''stage_name'', PyStr (stage_name stg)),
      (''stage_type'', PyStr (stage_type stg)),
      (''description'', opt_str (description stg)),
      (''original_logic'', PyStr (original_logic stg)),
      (''edited_logic'', opt_str (edited_logic stg))]"

text \<open>
  The first loop of the route: one call of the generator per stage.  The generator
  (prompt, LLM call and parser) is the parameter \<open>gen\<close>; \<open>Inl msg\<close> is an exception
  it raised.  A result without \<open>success\<close> is turned into an exception by the route.
\<close>

fun generate_stages ::
  "(pydict \<Rightarrow> string + gen_result) \<Rightarrow> stage list \<Rightarrow> (stage \<times> gen_result) list \<Rightarrow> label list \<Rightarrow>
   string + ((stage \<times> gen_result) list \<times> label list)" where
  "generate_stages gen [] generated_results all_global_labels =
     Inr (generated_results, all_global_labels)"
| "generate_stages gen (stg # rest) generated_results all_global_labels =
     (case gen (stage_data stg) of
        Inl msg \<Rightarrow> Inl msg
      | Inr result \<Rightarrow>
          if res_success result
          then generate_stages gen rest (generated_results @ [(stg, result)])
                 (all_global_labels @ res_global_labels result)
          else Inl (''Failed to generate code for stage: '' @ stage_name stg))"

text \<open>The second loop: the old rows of the stage are deleted, the new row is created
  with the merged global labels, and a \<open>generate_code\<close> version entry is recorded.\<close>

fun save_stages ::
  "(string \<Rightarrow> string \<Rightarrow> string) \<Rightarrow> nat \<Rightarrow> label list \<Rightarrow> (stage \<times> gen_result) list \<Rightarrow> db \<Rightarrow> db" where
  "save_stages unified_diff user_id merged_global_labels [] d = d"
| "save_stages unified_diff user_id merged_global_labels ((stg, result) # rest) d =
     (let d1 = code_delete_by_stage (s_id stg) d;
          (new_code, d2) =
             code_create (s_project_id stg) (Some (s_id stg)) merged_global_labels
               (res_local_labels result) (res_program_body result)
               (md_program_name (res_metadata result)) (md_execution_type (res_metadata result))
               (res_metadata result) (res_program_blocks result) (res_functions result)
               (res_function_blocks result) d1;
          (entry, d3) =
             create_version_entry unified_diff (gc_id new_code) (s_id stg) user_id ''generate_code''
               None
               (Some [(''program_body'', PyStr (res_program_body result)),
                      (''global_labels_count'', PyInt (int (length merged_global_labels))),
                      (''local_labels_count'', PyInt (int (length (res_local_labels result)))),
                      (''program_blocks_count'', PyInt (int (length (res_program_blocks result)))),
                      (''functions_count'', PyInt (int (length (res_functions result)))),
                      (''function_blocks_count'', PyInt (int (length (res_function_blocks result))))])
               (Some [(''description'', PyStr ''Code generated for all stages''),
                      (''program_name'', PyStr (md_program_name (res_metadata result)))])
               d2
      in save_stages unified_diff user_id merged_global_labels rest d3)"

text \<open>
  The route \<open>generate_code\<close>: the answer and the database after the request.
\<close>

definition generate_code ::
  "(pydict \<Rightarrow> string + gen_result) \<Rightarrow> (string \<Rightarrow> string \<Rightarrow> string) \<Rightarrow> nat \<Rightarrow> nat \<Rightarrow> db \<Rightarrow>
   (http_error + generated_code_response) \<times> db" where
  "generate_code gen unified_diff request_stage_id current_user_id d =
     (case stage_get_by_id d request_stage_id of
        None \<Rightarrow> (Inl (HTTPException 404 ''Stage not found''), d)
      | Some stage \<Rightarrow>
          (case project_get_by_id d (s_project_id stage) of
             None \<Rightarrow> (Inl (HTTPException 403 ''Not authorized''), d)
           | Some project \<Rightarrow>
               if owner_id project \<noteq> current_user_id
               then (Inl (HTTPException 403 ''Not authorized''), d)
               else
                 (let all_stages = stage_get_by_project d (s_project_id stage);
                      unvalidated_stages = filter (\<lambda>s. \<not> is_validated s) all_stages
                  in if unvalidated_stages \<noteq> []
                     then (Inl (HTTPException 400
                             (''All stages must be validated before generating code. Unvalidated stages: ''
                              @ py_join '', '' (map stage_name unvalidated_stages))), d)
                     else
                       (case generate_stages gen all_stages [] [] of
                          Inl msg \<Rightarrow> (Inl (HTTPException 500 (''Code generation error: '' @ msg)), d)
                        | Inr (generated_results, all_global_labels) \<Rightarrow>
                            (let merged_global_labels = merge_global_labels [] all_global_labels;
                                 d' = save_stages unified_diff current_user_id merged_global_labels
                                        generated_results d
                             in (case first_where (\<lambda>(s, r). s_id s = s_id stage) generated_results of
                                   None \<Rightarrow>
                                     (Inl (HTTPException 500
                                        ''Code generation error: Could not find result for requested stage''), d')
                                 | Some (s, r) \<Rightarrow>
                                     (Inr \<lparr>rsp_success = True,
                                           rsp_stage_id = res_stage_id r,
                                           rsp_stage_name = res_stage_name r,
                                           rsp_global_labels = merged_global_labels,
                                           rsp_local_labels = res_local_labels r,
                                           rsp_program_body = res_program_body r,
                                           rsp_metadata = res_metadata r,
                                           rsp_program_blocks = res_program_blocks r,
                                           rsp_functions = res_functions r,
                                           rsp_function_blocks = res_function_blocks r\<rparr>, d')))))))"

text \<open>The code rows of one stage.\<close>

definition codes_of_stage :: "db \<Rightarrow> nat \<Rightarrow> generated_code list" where
  "codes_of_stage d sid = filter (\<lambda>c. gc_stage_id c = Some sid) (codes d)"

section \<open>Input validation (core/planner, core/input\_processing)\<close>

text \<open>The dictionary both validators return: the keys that are absent are \<open>None\<close>.\<close>

record input_check =
  chk_valid :: bool
  chk_error :: "string option"
  chk_word_count :: "nat option"
  chk_required :: "nat option"
  chk_max_allowed :: "nat option"

definition word_count :: "string \<Rightarrow> nat" where
  "word_count text = length (py_split_ws text)"

text \<open>\<open>PlannerOrchestrator._validate_input\<close>.\<close>

definition planner_validate_input :: "string \<Rightarrow> input_check" where
  "planner_validate_input control_logic =
     (if control_logic = [] \<or> py_strip control_logic = []
      then \<lparr>chk_valid = False, chk_error = Some ''Control logic cannot be empty'',
            chk_word_count = None, chk_required = None, chk_max_allowed = None\<rparr>
      else if word_count control_logic < 50
      then \<lparr>chk_valid = False,
            chk_error = Some (''Control logic too brief ('' @ str_nat (word_count control_logic)
               @ '' words). Please provide at least 50 words describing the complete control process.''),
            chk_word_count = None, chk_required = None, chk_max_allowed = None\<rparr>
      else \<lparr>chk_valid = True, chk_error = None,
            chk_word_count = None, chk_required = None, chk_max_allowed = None\<rparr>)"

text \<open>\<open>InputValidator.validate\<close>, with its two bounds.\<close>

definition min_word_count :: nat where
  "min_word_count = 50"

definition max_word_count :: nat where
  "max_word_count = 5000"

definition input_validator_validate :: "string \<Rightarrow> input_check" where
  "input_validator_validate text =
     (if text = [] \<or> py_strip text = []
      then \<lparr>chk_valid = False, chk_error = Some ''Control logic cannot be empty'',
            chk_word_count = None, chk_required = None, chk_max_allowed = None\<rparr>
      else if word_count text < min_word_count
      then \<lparr>chk_valid = False,
            chk_error = Some (''Control logic too brief ('' @ str_nat (word_count text)
               @ '' words). Please provide at least '' @ str_nat min_word_count
               @ '' words describing the complete control process.''),
            chk_word_count = Some (word_count text), chk_required = Some min_word_count,
            chk_max_allowed = None\<rparr>
      else if word_count text > max_word_count
      then \<lparr>chk_valid = False,
            chk_error = Some (''Control logic too long ('' @ str_nat (word_count text)
               @ '' words). Maximum '' @ str_nat max_word_count @ '' words allowed.''),
            chk_word_count = Some (word_count text), chk_required = None,
            chk_max_allowed = Some max_word_count\<rparr>
      else \<lparr>chk_valid = True, chk_error = None, chk_word_count = Some (word_count text),
            chk_required = None, chk_max_allowed = None\<rparr>)"

text \<open>
  \<open>PlannerOrchestrator.create_plan\<close>: the input check is the gate; the analysis, the
  LLM-driven segregation and the dependency pass that follow it are the parameter
  \<open>plan_steps\<close>.  \<open>Inl\<close> is the answer \<open>{"success": False, "error": ...}\<close>.
\<close>

definition create_plan :: "(string \<Rightarrow> 'plan) \<Rightarrow> string \<Rightarrow> string option + 'plan" where
  "create_plan plan_steps control_logic =
     (let validation = planner_validate_input control_logic
      in if \<not> chk_valid validation then Inl (chk_error validation)
         else Inr (plan_steps control_logic))"

section \<open>Dependency validation (core/planner/dependency\_mapper.py)\<close>

record plan_stage =
  ps_stage_number :: int
  ps_stage_name :: string
  ps_stage_type :: string

record dependency =
  from_stage :: int
  to_stage :: int
  condition :: string

text \<open>
  The messages of the validator as values: \<open>NonExistentStage n\<close> is
  "Dependency references non-existent stage: n", \<open>BackwardsDependency a b\<close> is
  "Backwards dependency: Stage a -> b" and \<open>MayBeUnreachable n\<close> is
  "Stage n may be unreachable".
\<close>

datatype dep_error = NonExistentStage int

datatype dep_warning = BackwardsDependency int int | MayBeUnreachable int

record dependency_validation =
  dv_valid :: bool
  dv_errors :: "dep_error list"
  dv_warnings :: "dep_warning list"

text \<open>The first loop, over the dependencies in their order.\<close>

fun check_endpoints ::
  "int list \<Rightarrow> dependency list \<Rightarrow> dep_error list \<Rightarrow> dep_warning list \<Rightarrow>
   dep_error list \<times> dep_warning list" where
  "check_endpoints stage_numbers [] errors warnings = (errors, warnings)"
| "check_endpoints stage_numbers (dep # rest) errors warnings =
     (let errors1 = (if from_stage dep \<notin> set stage_numbers
                     then errors @ [NonExistentStage (from_stage dep)] else errors);
          errors2 = (if to_stage dep \<notin> set stage_numbers
                     then errors1 @ [NonExistentStage (to_stage dep)] else errors1);
          warnings1 = (if from_stage dep \<ge> to_stage dep
                       then warnings @ [BackwardsDependency (from_stage dep) (to_stage dep)]
                       else warnings)
      in check_endpoints stage_numbers rest errors2 warnings1)"

text \<open>The second loop: one pass over the dependencies, in their order, growing the
  set of reachable stages.\<close>

fun reachable_pass :: "int set \<Rightarrow> dependency list \<Rightarrow> int set" where
  "reachable_pass reachable_stages [] = reachable_stages"
| "reachable_pass reachable_stages (dep # rest) =
     (if from_stage dep \<in> reachable_stages
      then reachable_pass (insert (to_stage dep) reachable_stages) rest
      else reachable_pass reachable_stages rest)"

definition validate_dependencies :: "plan_stage list \<Rightarrow> dependency list \<Rightarrow> dependency_validation" where
  "validate_dependencies stage_list dependencies =
     (let stage_numbers = map ps_stage_number stage_list;
          (errors, warnings) = check_endpoints stage_numbers dependencies [] [];
          reachable_stages = reachable_pass {0} dependencies;
          warnings2 = warnings @
             map MayBeUnreachable
               (filter (\<lambda>stage_num. stage_num \<notin> reachable_stages \<and> stage_num \<noteq> 0) stage_numbers)
      in \<lparr>dv_valid = (length errors = 0), dv_errors = errors, dv_warnings = warnings2\<rparr>)"

text \<open>Reachability in the transition graph: the stages that a path of dependencies
  connects to stage 0.\<close>

inductive graph_reachable :: "dependency list \<Rightarrow> int \<Rightarrow> bool" for deps where
  start: "graph_reachable deps 0"
| step: "graph_reachable deps a \<Longrightarrow> dep \<in> set deps \<Longrightarrow> from_stage dep = a \<Longrightarrow>
         graph_reachable deps (to_stage dep)"

section \<open>Stage validation result (core/validation/stage\_validator.py)\<close>

record categorized_issue =
  severity :: string
  title :: string
  ci_description :: string
  recommended_logic :: string

record validation_result =
  vr_valid :: bool
  vr_status :: string
  semantic_analysis :: string
  logical_consistency :: string
  safety_compliance :: string
  issues :: "string list"
  recommendations :: "string list"
  categorized_issues :: "categorized_issue list"

datatype section_name = SecStatus | SecCategorized | SecIssues | SecRecommendations | SecAnalysis

text \<open>What the loop of \<open>_parse_validation_result\<close> carries from line to line.\<close>

record parse_state =
  st_result :: validation_result
  current_section :: "section_name option"
  current_issue :: "categorized_issue option"

definition separator_line :: string where
  "separator_line = replicate 30 CHR ''=''"

text \<open>A severity tag opens a new issue; the issue that was open is appended first.\<close>

definition open_issue :: "string \<Rightarrow> string \<Rightarrow> string \<Rightarrow> parse_state \<Rightarrow> parse_state" where
  "open_issue sev tag line_stripped st =
     (let res = st_result st;
          res1 = (case current_issue st of
                    None \<Rightarrow> res
                  | Some ci \<Rightarrow> res\<lparr>categorized_issues := categorized_issues res @ [ci]\<rparr>)
      in st\<lparr>st_result := res1,
            current_issue := Some \<lparr>severity = sev,
                                   title = py_strip (py_replace line_stripped tag []),
                                   ci_description = [],
                                   recommended_logic = []\<rparr>\<rparr>)"

definition parse_categorized_line :: "string \<Rightarrow> parse_state \<Rightarrow> parse_state" where
  "parse_categorized_line line_stripped st =
     (if py_startswith line_stripped ''[CRITICAL]''
      then open_issue ''critical'' ''[CRITICAL]'' line_stripped st
      else if py_startswith line_stripped ''[MODERATE]''
      then open_issue ''moderate'' ''[MODERATE]'' line_stripped st
      else if py_startswith line_stripped ''[OPTIONAL]''
      then open_issue ''optional'' ''[OPTIONAL]'' line_stripped st
      else (case current_issue st of
              None \<Rightarrow> st
            | Some ci \<Rightarrow>
                if py_startswith line_stripped ''Description:''
                then st\<lparr>current_issue :=
                         Some (ci\<lparr>ci_description := py_strip (py_replace line_stripped ''Description:'' [])\<rparr>)\<rparr>
                else if py_startswith line_stripped ''Recommended Logic:''
                then st\<lparr>current_issue := Some (ci\<lparr>recommended_logic := []\<rparr>)\<rparr>
                else if ci_description ci \<noteq> [] \<and> \<not> py_startswith line_stripped ''Recommended Logic:''
                then st\<lparr>current_issue :=
                         Some (ci\<lparr>recommended_logic := recommended_logic ci @ line_stripped @ '' ''\<rparr>)\<rparr>
                else st))"

definition parse_analysis_line :: "string \<Rightarrow> parse_state \<Rightarrow> parse_state" where
  "parse_analysis_line line_stripped st =
     (let res = st_result st
      in if py_startswith line_stripped ''Semantic Analysis:''
         then st\<lparr>st_result := res\<lparr>semantic_analysis :=
                  py_strip (py_replace line_stripped ''Semantic Analysis:'' [])\<rparr>\<rparr>
         else if py_startswith line_stripped ''Logical Consistency:''
         then st\<lparr>st_result := res\<lparr>logical_consistency :=
                  py_strip (py_replace line_stripped ''Logical Consistency:'' [])\<rparr>\<rparr>
         else if py_startswith line_stripped ''Safety Compliance:''
         then st\<lparr>st_result := res\<lparr>safety_compliance :=
                  py_strip (py_replace line_stripped ''Safety Compliance:'' [])\<rparr>\<rparr>
         else st)"

text \<open>One iteration of the loop over the lines.\<close>

definition parse_line :: "parse_state \<Rightarrow> string \<Rightarrow> parse_state" where
  "parse_line st line =
     (let line_stripped = py_strip line;
          res = st_result st
      in if py_in ''VALIDATION STATUS'' line then st\<lparr>current_section := Some SecStatus\<rparr>
         else if line = separator_line then st
         else if py_in ''CATEGORIZED ISSUES'' line then st\<lparr>current_section := Some SecCategorized\<rparr>
         else if py_startswith line_stripped ''ISSUES'' \<and> \<not> py_in ''CATEGORIZED'' line
         then st\<lparr>current_section := Some SecIssues\<rparr>
         else if py_in ''RECOMMENDATIONS'' line then st\<lparr>current_section := Some SecRecommendations\<rparr>
         else if py_in ''ANALYSIS SUMMARY'' line then st\<lparr>current_section := Some SecAnalysis\<rparr>
         else if current_section st = Some SecIssues \<and> py_startswith line_stripped ''-''
         then (let issue = py_strip (drop 1 line_stripped)
               in if issue \<noteq> [] then st\<lparr>st_result := res\<lparr>issues := issues res @ [issue]\<rparr>\<rparr> else st)
         else if current_section st = Some SecRecommendations \<and> py_startswith line_stripped ''-''
         then (let rec = py_strip (drop 1 line_stripped)
               in if rec \<noteq> []
                  then st\<lparr>st_result := res\<lparr>recommendations := recommendations res @ [rec]\<rparr>\<rparr>
                  else st)
         else if current_section st = Some SecCategorized \<and> line_stripped \<noteq> []
         then parse_categorized_line line_stripped st
         else if current_section st = Some SecAnalysis \<and> line_stripped \<noteq> []
         then parse_analysis_line line_stripped st
         else st)"

definition critical_count :: "validation_result \<Rightarrow> nat" where
  "critical_count res = length (filter (\<lambda>issue. severity issue = ''critical'') (categorized_issues res))"

definition parse_validation_result :: "string \<Rightarrow> validation_result" where
  "parse_validation_result validation_text =
     (let result0 = \<lparr>vr_valid = False, vr_status = ''FAIL'', semantic_analysis = [],
                     logical_consistency = [], safety_compliance = [], issues = [],
                     recommendations = [], categorized_issues = []\<rparr>;
          result1 = (if py_in ''Status: PASS'' validation_text
                     then result0\<lparr>vr_valid := True, vr_status := ''PASS''\<rparr> else result0);
          st = foldl parse_line
                 \<lparr>st_result = result1, current_section = None, current_issue = None\<rparr>
                 (py_split_on CHR 0x0A validation_text);
          result2 = (case current_issue st of
                       None \<Rightarrow> st_result st
                     | Some ci \<Rightarrow> (st_result st)\<lparr>categorized_issues :=
                                      categorized_issues (st_result st) @ [ci]\<rparr>)
      in if critical_count result2 = 0
         then result2\<lparr>vr_valid := True, vr_status := ''PASS''\<rparr>
         else result2)"

text \<open>The well-formed version string of three natural numbers.\<close>

definition semver :: "nat \<Rightarrow> nat \<Rightarrow> nat \<Rightarrow> string" where
  "semver major minor patch = str_nat major @ ''.'' @ str_nat minor @ ''.'' @ str_nat patch"

text \<open>The version numbers a run of actions leaves in the ledger, by the bump of each.\<close>

fun ledger_versions :: "string \<Rightarrow> string list \<Rightarrow> string list" where
  "ledger_versions v [] = []"
| "ledger_versions v (a # as) = increment_version v a # ledger_versions (increment_version v a) as"

text \<open>The stage of scenario S5: one stage at version 1.0.0, and an empty ledger.\<close>

definition s5_stage :: stage where
  "s5_stage = \<lparr>s_id = 1, s_project_id = 1, stage_number = 0, stage_name = ''Idle'',
               stage_type = ''idle'', description = None, original_logic = ''Wait for start'',
               edited_logic = None, is_validated = False, is_finalized = False,
               version_number = ''1.0.0'', last_action = None, last_action_timestamp = None\<rparr>"

definition s5_db :: db where
  "s5_db = \<lparr>projects = [\<lparr>p_id = 1, p_name = ''Line'', owner_id = 1\<rparr>], stages = [s5_stage],
            codes = [], history = [], next_code_id = 1, next_history_id = 1, clock = 0\<rparr>"

definition s5_actions :: "string list" where
  "s5_actions = [''edit_logic'', ''validate'', ''edit_logic'', ''generate_code'']"

text \<open>A stand-in for the diff library in the scenarios: it reports no difference.\<close>

definition no_diff :: "string \<Rightarrow> string \<Rightarrow> string" where
  "no_diff old_text new_text = []"

text \<open>
  The identity key of a label, and the two sets the merge keeps.  \<open>clashes x y\<close>: label
  \<open>y\<close>, once merged, makes the merge skip \<open>x\<close>.  \<open>collision_free\<close>: every label has
  an identity and no label is skipped because of a different one.
\<close>

definition label_identity :: "label \<Rightarrow> string" where
  "label_identity l = (if lbl_device l \<noteq> [] then lbl_device l else lbl_name l)"

definition devices_of :: "label list \<Rightarrow> string set" where
  "devices_of ls = set (filter (\<lambda>dv. dv \<noteq> []) (map lbl_device ls))"

definition names_of :: "label list \<Rightarrow> string set" where
  "names_of ls = set (filter (\<lambda>nm. nm \<noteq> []) (map lbl_name ls))"

definition clashes :: "label \<Rightarrow> label \<Rightarrow> bool" where
  "clashes x y = (label_identity x \<in> devices_of [y] \<or> lbl_name x \<in> names_of [y])"

definition collision_free :: "label list \<Rightarrow> bool" where
  "collision_free ls =
     (\<forall>x \<in> set ls. label_identity x \<noteq> [] \<and> (\<forall>y \<in> set ls. x \<noteq> y \<longrightarrow> \<not> clashes x y))"

text \<open>The labels of scenario S4.\<close>

definition start_button :: label where
  "start_button = \<lparr>lbl_name = ''Start_Button'', lbl_data_type = ''Bit'', lbl_class = ''VAR_GLOBAL'',
                   lbl_device = ''X0'', lbl_initial_value = [], lbl_constant = False,
                   lbl_comment = []\<rparr>"

definition sensor1 :: label where
  "sensor1 = \<lparr>lbl_name = ''Sensor1'', lbl_data_type = ''Bit'', lbl_class = ''VAR_GLOBAL'',
              lbl_device = ''X1'', lbl_initial_value = [], lbl_constant = False,
              lbl_comment = []\<rparr>"

text \<open>\<open>accepts x devs names\<close> is the test of the loop body; \<open>merge_from\<close> is the loop
  started from a merged list with the two sets that belong to it.\<close>

definition accepts :: "label \<Rightarrow> string set \<Rightarrow> string set \<Rightarrow> bool" where
  "accepts x devs names = (label_identity x \<noteq> [] \<and> label_identity x \<notin> devs \<and> lbl_name x \<notin> names)"

definition merge_from :: "label list \<Rightarrow> label list \<Rightarrow> label list" where
  "merge_from merged new = merge_loop merged (devices_of merged) (names_of merged) new"


text \<open>The global labels the stages of a project emitted: the global labels of the
  generator's result for every stage, in the order of the stages.\<close>

definition emitted_labels :: "(pydict \<Rightarrow> string + gen_result) \<Rightarrow> stage list \<Rightarrow> label list" where
  "emitted_labels gen stgs =
     concat (map (\<lambda>stg. case gen (stage_data stg) of
                           Inl msg \<Rightarrow> []
                         | Inr result \<Rightarrow> res_global_labels result) stgs)"

text \<open>Generation fails for a stage: the generator raises, or its result is not a
  success.\<close>

definition generation_fails :: "(pydict \<Rightarrow> string + gen_result) \<Rightarrow> stage \<Rightarrow> bool" where
  "generation_fails gen stg =
     (case gen (stage_data stg) of Inl msg \<Rightarrow> True | Inr result \<Rightarrow> \<not> res_success result)"

text \<open>
  Scenario S4: a project of two validated stages, an old code row of the first
  stage, and a generator whose answer for stage 0 has the global label
  \<open>Start_Button\<close> and for every other stage \<open>Start_Button\<close> and \<open>Sensor1\<close>.
  The second generator fails on stage 1.
\<close>

definition s4_stage_a :: stage where
  "s4_stage_a = \<lparr>s_id = 1, s_project_id = 1, stage_number = 0, stage_name = ''Idle'',
                 stage_type = ''idle'', description = None, original_logic = ''Wait for start'',
                 edited_logic = None, is_validated = True, is_finalized = False,
                 version_number = ''1.1.0'', last_action = None, last_action_timestamp = None\<rparr>"

definition s4_stage_b :: stage where
  "s4_stage_b = \<lparr>s_id = 2, s_project_id = 1, stage_number = 1, stage_name = ''Safety Check'',
                 stage_type = ''safety'', description = None, original_logic = ''Check the guard'',
                 edited_logic = None, is_validated = True, is_finalized = False,
                 version_number = ''1.1.0'', last_action = None, last_action_timestamp = None\<rparr>"

definition s4_metadata :: gen_metadata where
  "s4_metadata = \<lparr>md_program_name = ''STAGE'', md_execution_type = ''Scan'',
                  md_generated_at = ''timestamp''\<rparr>"

definition s4_old_code :: generated_code where
  "s4_old_code = \<lparr>gc_id = 1, gc_project_id = 1, gc_stage_id = Some 1, global_labels = [sensor1],
                  local_labels = [], program_body = ''old'', program_blocks = [],
                  st_functions = [], function_blocks = [], program_name = ''STAGE'',
                  execution_type = ''Scan'', code_metadata = s4_metadata, created_at = 0\<rparr>"

definition s4_db :: db where
  "s4_db = \<lparr>projects = [\<lparr>p_id = 1, p_name = ''Line'', owner_id = 1\<rparr>],
            stages = [s4_stage_a, s4_stage_b], codes = [s4_old_code], history = [],
            next_code_id = 2, next_history_id = 1, clock = 1\<rparr>"

definition s4_result :: "label list \<Rightarrow> gen_result" where
  "s4_result gl = \<lparr>res_success = True, res_stage_id = 0, res_stage_name = ''stage'',
                   res_global_labels = gl, res_local_labels = [], res_program_body = ''new'',
                   res_program_blocks = [], res_functions = [], res_function_blocks = [],
                   res_metadata = s4_metadata\<rparr>"

definition s4_gen :: "pydict \<Rightarrow> string + gen_result" where
  "s4_gen sd = (if py_get sd ''stage_number'' PyNone = PyInt 0
                then Inr (s4_result [start_button])
                else Inr (s4_result [start_button, sensor1]))"

definition s4_failing_gen :: "pydict \<Rightarrow> string + gen_result" where
  "s4_failing_gen sd = (if py_get sd ''stage_number'' PyNone = PyInt 1
                        then Inl ''LLM failure''
                        else s4_gen sd)"

text \<open>An input of 5001 words, and the plan of scenario S1 with its two transitions
  listed in reverse order.\<close>

definition long_text :: string where
  "long_text = concat (replicate 5001 ''a '')"

definition s1_stages :: "plan_stage list" where
  "s1_stages = [\<lparr>ps_stage_number = 0, ps_stage_name = ''Idle'', ps_stage_type = ''idle''\<rparr>,
                \<lparr>ps_stage_number = 1, ps_stage_name = ''Safety Check'', ps_stage_type = ''safety''\<rparr>,
                \<lparr>ps_stage_number = 2, ps_stage_name = ''Conveyor Operation'',
                 ps_stage_type = ''operation''\<rparr>]"

definition s1_dependencies_reversed :: "dependency list" where
  "s1_dependencies_reversed =
     [\<lparr>from_stage = 1, to_stage = 2, condition = ''safety ok''\<rparr>,
      \<lparr>from_stage = 0, to_stage = 1, condition = ''start pressed''\<rparr>]"

text \<open>An answer of the validating LLM that says PASS and lists a critical issue.\<close>

definition pass_with_critical :: string where
  "pass_with_critical =
     py_join nl [''Status: PASS'', ''CATEGORIZED ISSUES'', ''[CRITICAL] Missing interlock'',
                 ''Description: The guard door is not checked.'']"

text \<open>A stage whose logic was edited after the plan was made.\<close>

definition edited_stage :: stage where
  "edited_stage = \<lparr>s_id = 3, s_project_id = 1, stage_number = 2, stage_name = ''Conveyor'',
                   stage_type = ''operation'', description = Some ''Run the belt'',
                   original_logic = ''Start the conveyor'', edited_logic = Some ''Start after 5 s'',
                   is_validated = True, is_finalized = False, version_number = ''1.1.1'',
                   last_action = None, last_action_timestamp = None\<rparr>"

section \<open>The code parser (core/code\_generation/structured\_text\_generator.py)\<close>


































section \<open>Properties of the embedded code\<close>

subsection \<open>Decimal rendering and parsing\<close>

lemma digit_char_is_digit: "d < 10 \<Longrightarrow> is_digit (digit_char d)"
  by (simp add: is_digit_def digit_char_def)

lemma digit_val_digit_char: "d < 10 \<Longrightarrow> digit_val (digit_char d) = d"
  by (simp add: digit_val_def digit_char_def)

lemma str_nat_digits: "list_all is_digit (str_nat n)"
proof (induction n rule: str_nat.induct)
  case (1 n)
  show ?case
  proof (cases "n < 10")
    case True
    then show ?thesis by (subst str_nat.simps) (simp add: digit_char_is_digit)
  next
    case False
    with 1 show ?thesis by (subst str_nat.simps) (simp add: digit_char_is_digit)
  qed
qed

lemma str_nat_nonempty: "str_nat n \<noteq> []"
  by (subst str_nat.simps) simp

lemma parse_digits_snoc: "parse_digits (ds @ [c]) = 10 * parse_digits ds + digit_val c"
  by (simp add: parse_digits_def)

lemma parse_digits_str_nat: "parse_digits (str_nat n) = n"
proof (induction n rule: str_nat.induct)
  case (1 n)
  show ?case
  proof (cases "n < 10")
    case True
    then show ?thesis by (subst str_nat.simps) (simp add: parse_digits_def digit_val_digit_char)
  next
    case False
    with 1 show ?thesis
      by (subst str_nat.simps) (simp add: parse_digits_snoc digit_val_digit_char)
  qed
qed

lemma is_digit_not_space: "is_digit c \<Longrightarrow> \<not> py_isspace c"
  by (auto simp: is_digit_def py_isspace_def)

lemma is_digit_not_special:
  "is_digit c \<Longrightarrow> c \<noteq> CHR ''.'' \<and> c \<noteq> CHR ''_'' \<and> c \<noteq> CHR ''-'' \<and> c \<noteq> CHR ''+''"
  by (auto simp: is_digit_def)

lemma py_strip_digits:
  assumes "list_all is_digit ds"
  shows "py_strip ds = ds"
proof (cases ds rule: rev_cases)
  case Nil
  then show ?thesis by (simp add: py_strip_def)
next
  case (snoc ys y)
  with assms have y: "\<not> py_isspace y" by (simp add: is_digit_not_space)
  show ?thesis
  proof (cases ds)
    case Nil
    with snoc show ?thesis by simp
  next
    case (Cons x xs)
    with assms have "\<not> py_isspace x" by (simp add: is_digit_not_space)
    then have "dropWhile py_isspace ds = ds" using Cons by simp
    moreover have "dropWhile py_isspace (rev ds) = rev ds" using snoc y by simp
    ultimately show ?thesis by (simp add: py_strip_def)
  qed
qed

lemma no_double_underscore_digits: "list_all is_digit ds \<Longrightarrow> no_double_underscore ds"
  by (induction ds rule: no_double_underscore.induct) (auto simp: is_digit_not_special)

lemma int_body_ok_digits:
  assumes "list_all is_digit ds" "ds \<noteq> []"
  shows "int_body_ok ds"
proof -
  have "is_digit (hd ds)" using assms by (cases ds) auto
  moreover have "is_digit (last ds)" using assms by (cases ds rule: rev_cases) auto
  moreover have "list_all (\<lambda>c. is_digit c \<or> c = CHR ''_'') ds"
    using assms(1) by (simp add: list_all_iff)
  ultimately show ?thesis
    using assms by (simp add: int_body_ok_def no_double_underscore_digits)
qed

lemma filter_underscore_digits: "list_all is_digit ds \<Longrightarrow> filter (\<lambda>c. c \<noteq> CHR ''_'') ds = ds"
  by (induction ds) (auto simp: is_digit_not_special)

lemma py_int_digits:
  assumes "list_all is_digit ds" "ds \<noteq> []"
  shows "py_int ds = Some (int (parse_digits ds))"
proof -
  obtain c rest where ds: "ds = c # rest" using assms(2) by (cases ds) auto
  have c: "c \<noteq> CHR ''-''" "c \<noteq> CHR ''+''"
    using assms(1) ds by (auto simp: is_digit_not_special)
  have "py_strip ds = c # rest" using assms(1) ds by (simp add: py_strip_digits)
  moreover have "int_body_val (c # rest) = parse_digits ds"
    using filter_underscore_digits[OF assms(1)] ds by (simp add: int_body_val_def)
  moreover have "int_body_ok (c # rest)" using int_body_ok_digits[OF assms] ds by simp
  ultimately show ?thesis using c by (simp add: py_int_def)
qed

lemma py_int_str_nat: "py_int (str_nat n) = Some (int n)"
  by (simp add: py_int_digits str_nat_digits str_nat_nonempty parse_digits_str_nat)

lemma py_split_on_no_sep: "c \<notin> set xs \<Longrightarrow> py_split_on c xs = [xs]"
  by (induction xs) auto

lemma py_split_on_append:
  "c \<notin> set xs \<Longrightarrow> py_split_on c (xs @ c # ys) = xs # py_split_on c ys"
  by (induction xs) auto

lemma str_nat_no_dot: "CHR ''.'' \<notin> set (str_nat n)"
proof
  assume "CHR ''.'' \<in> set (str_nat n)"
  then have "is_digit CHR ''.''" using str_nat_digits[of n] by (simp add: list_all_iff)
  then show False by (simp add: is_digit_def)
qed

lemma str_int_nat: "str_int (int n) = str_nat n"
  by (simp add: str_int_def)

lemma str_int_zero: "str_int 0 = str_nat 0"
  by (simp add: str_int_def)

lemma str_int_nat_plus: "str_int (int n + 1) = str_nat (Suc n)"
  by (simp add: str_int_def nat_add_distrib)

subsection \<open>The bump table of \<open>increment_version\<close>\<close>

lemma split_semver:
  "py_split_on CHR ''.'' (semver a b c) = [str_nat a, str_nat b, str_nat c]"
  by (simp add: semver_def py_split_on_append py_split_on_no_sep str_nat_no_dot)

lemma increment_version_minor:
  "action \<in> {''validate'', ''generate_code''} \<Longrightarrow>
   increment_version (semver a b c) action = semver a (Suc b) 0"
  unfolding increment_version_def split_semver
  by (auto simp: py_int_str_nat str_int_nat str_int_zero str_int_nat_plus semver_def)

lemma increment_version_patch:
  "action \<in> {''edit_logic'', ''safety_check''} \<Longrightarrow>
   increment_version (semver a b c) action = semver a b (Suc c)"
  unfolding increment_version_def split_semver
  by (auto simp: py_int_str_nat str_int_nat str_int_nat_plus semver_def)

lemma increment_version_other:
  "action \<notin> {''validate'', ''generate_code'', ''edit_logic'', ''safety_check''} \<Longrightarrow>
   increment_version (semver a b c) action = semver a b c"
  unfolding increment_version_def split_semver
  by (auto simp: py_int_str_nat str_int_nat semver_def)

text \<open>
  C4. The claim: for every well-formed version \<open>major.minor.patch\<close>, the actions
  \<open>validate\<close> and \<open>generate_code\<close> give \<open>major.(minor+1).0\<close>, and the actions
  \<open>edit_logic\<close>, \<open>edit_code\<close> and \<open>safety_check\<close> give \<open>major.minor.(patch+1)\<close>.
  The lemmas above prove the table for \<open>validate\<close>, \<open>generate_code\<close>, \<open>edit_logic\<close>
  and \<open>safety_check\<close>.  The action \<open>edit_code\<close>, which the route
  \<open>update_generated_code\<close> records, is in neither list of \<open>increment_version\<close>:
  the version \<open>1.0.0\<close> stays \<open>1.0.0\<close> where the claim says \<open>1.0.1\<close>.
\<close>

theorem increment_version_edit_code_no_bump:
  "increment_version ''1.0.0'' ''edit_code'' = ''1.0.0''
   \<and> increment_version ''1.0.0'' ''edit_logic'' = ''1.0.1''"
  by code_simp

subsection \<open>The version ledger\<close>

lemma first_where_update_first:
  "first_where P xs = Some x \<Longrightarrow> (\<And>y. P (f y) = P y) \<Longrightarrow>
   first_where P (update_first P f xs) = Some (f x)"
  by (induction xs) (auto simp: first_where_def split: list.splits if_splits)

lemma stage_after_entry:
  assumes "stage_get_by_id d sid = Some s"
  shows "\<exists>s'. stage_get_by_id (snd (create_version_entry ud cid sid uid a od nd md d)) sid = Some s'
             \<and> version_number s' = increment_version (version_number s) a"
proof -
  let ?f = "\<lambda>x. x\<lparr>version_number := increment_version (version_number s) a,
                   last_action := Some a, last_action_timestamp := Some (clock d)\<rparr>"
  have "first_where (\<lambda>x. s_id x = sid) (update_first (\<lambda>x. s_id x = sid) ?f (stages d)) = Some (?f s)"
    using assms by (intro first_where_update_first) (auto simp: stage_get_by_id_def)
  then show ?thesis
    using assms
    by (simp add: create_version_entry_def stage_get_by_id_def utcnow_def Let_def split_def)
qed

lemma history_after_entry:
  "history (snd (create_version_entry ud cid sid uid a od nd md d))
     = history d @ [fst (create_version_entry ud cid sid uid a od nd md d)]"
  by (simp add: create_version_entry_def utcnow_def Let_def split_def split: option.splits)

lemma entry_version:
  "stage_get_by_id d sid = Some s \<Longrightarrow>
   vh_version_number (fst (create_version_entry ud cid sid uid a od nd md d))
     = increment_version (version_number s) a"
  by (simp add: create_version_entry_def utcnow_def Let_def split_def)

lemma entry_action:
  "vh_action (fst (create_version_entry ud cid sid uid a od nd None d)) = PyStr a"
  by (simp add: create_version_entry_def utcnow_def Let_def split_def vh_action_def
        dict_merge_def py_get_def)

lemma record_actions_ledger:
  assumes "stage_get_by_id d sid = Some s"
  shows "\<exists>s' es. stage_get_by_id (record_actions ud cid sid uid as d) sid = Some s'
           \<and> version_number s' = foldl increment_version (version_number s) as
           \<and> history (record_actions ud cid sid uid as d) = history d @ es
           \<and> map vh_action es = map PyStr as
           \<and> map vh_version_number es = ledger_versions (version_number s) as"
  using assms
proof (induction as arbitrary: d s)
  case Nil
  then show ?case by simp
next
  case (Cons a as)
  let ?r = "create_version_entry ud cid sid uid a None None None d"
  obtain s1 where s1: "stage_get_by_id (snd ?r) sid = Some s1"
    "version_number s1 = increment_version (version_number s) a"
    using stage_after_entry[OF Cons.prems] by blast
  from Cons.IH[OF s1(1)] obtain s' es where
    r: "stage_get_by_id (record_actions ud cid sid uid as (snd ?r)) sid = Some s'"
       "version_number s' = foldl increment_version (version_number s1) as"
       "history (record_actions ud cid sid uid as (snd ?r)) = history (snd ?r) @ es"
       "map vh_action es = map PyStr as"
       "map vh_version_number es = ledger_versions (version_number s1) as"
    by blast
  have "history (record_actions ud cid sid uid (a # as) d) = history d @ (fst ?r # es)"
    using r(3) by (simp add: history_after_entry)
  moreover have "map vh_action (fst ?r # es) = map PyStr (a # as)"
    using r(4) by (simp add: entry_action)
  moreover have "map vh_version_number (fst ?r # es) = ledger_versions (version_number s) (a # as)"
    using r(5) s1(2) by (simp add: entry_version[OF Cons.prems])
  ultimately show ?case using r(1,2) s1(2) by auto
qed

lemma s5_versions:
  "foldl increment_version ''1.0.0'' s5_actions = ''1.2.0''"
  "ledger_versions ''1.0.0'' s5_actions = [''1.0.1'', ''1.1.0'', ''1.1.1'', ''1.2.0'']"
  by code_simp+

text \<open>
  C5. The claim: from version 1.0.0, the actions \<open>edit_logic\<close>, \<open>validate\<close>,
  \<open>edit_logic\<close>, \<open>generate_code\<close> leave the stage at 1.2.1, with exactly four ledger
  entries in that order.  The code, and the bump table itself, give 1.2.0: the last
  action, \<open>generate_code\<close>, raises the minor number and resets the patch number.
  Amended: the final version is 1.2.0; the ledger gains exactly four entries, in the
  order of the actions, with the action labels \<open>edit_logic\<close>, \<open>validate\<close>,
  \<open>edit_logic\<close>, \<open>generate_code\<close> and the versions 1.0.1, 1.1.0, 1.1.1, 1.2.0.
\<close>

theorem s5_ledger:
  assumes "stage_get_by_id d sid = Some s" and "version_number s = ''1.0.0''"
  shows "\<exists>s' es. stage_get_by_id (record_actions ud cid sid uid s5_actions d) sid = Some s'
           \<and> version_number s' = ''1.2.0''
           \<and> history (record_actions ud cid sid uid s5_actions d) = history d @ es
           \<and> map vh_action es = map PyStr s5_actions
           \<and> map vh_version_number es = [''1.0.1'', ''1.1.0'', ''1.1.1'', ''1.2.0'']
           \<and> length es = 4"
proof -
  obtain s' es where r: "stage_get_by_id (record_actions ud cid sid uid s5_actions d) sid = Some s'"
     "version_number s' = foldl increment_version (version_number s) s5_actions"
     "history (record_actions ud cid sid uid s5_actions d) = history d @ es"
     "map vh_action es = map PyStr s5_actions"
     "map vh_version_number es = ledger_versions (version_number s) s5_actions"
    using record_actions_ledger[OF assms(1)] by blast
  have "length es = 4" using arg_cong[OF r(4), of length] by (simp add: s5_actions_def)
  then show ?thesis using r assms(2) by (auto simp: s5_versions)
qed

text \<open>The scenario itself satisfies the hypotheses.\<close>

theorem s5_ledger_witness:
  "stage_get_by_id s5_db 1 = Some s5_stage \<and> version_number s5_stage = ''1.0.0''
   \<and> (\<exists>s' es. stage_get_by_id (record_actions no_diff 1 1 1 s5_actions s5_db) 1 = Some s'
           \<and> version_number s' = ''1.2.0''
           \<and> history (record_actions no_diff 1 1 1 s5_actions s5_db) = history s5_db @ es
           \<and> map vh_action es = map PyStr s5_actions
           \<and> map vh_version_number es = [''1.0.1'', ''1.1.0'', ''1.1.1'', ''1.2.0'']
           \<and> length es = 4)"
proof -
  have a: "stage_get_by_id s5_db 1 = Some s5_stage"
    by (simp add: stage_get_by_id_def first_where_def s5_db_def s5_stage_def)
  have b: "version_number s5_stage = ''1.0.0''" by (simp add: s5_stage_def)
  show ?thesis using a b s5_ledger[OF a b] by blast
qed

text \<open>The final version of scenario S5 is not 1.2.1.\<close>

theorem s5_final_version_counterexample:
  "map_option version_number (stage_get_by_id (record_actions no_diff 1 1 1 s5_actions s5_db) 1)
     \<noteq> Some ''1.2.1''"
proof -
  have a: "stage_get_by_id s5_db 1 = Some s5_stage"
    by (simp add: stage_get_by_id_def first_where_def s5_db_def s5_stage_def)
  obtain s' where "stage_get_by_id (record_actions no_diff 1 1 1 s5_actions s5_db) 1 = Some s'"
    "version_number s' = foldl increment_version (version_number s5_stage) s5_actions"
    using record_actions_ledger[OF a] by blast
  then show ?thesis by (simp add: s5_stage_def s5_versions)
qed

subsection \<open>The merge of global labels\<close>

lemma merge_loop_step:
  "merge_loop merged devs names (x # rest) =
     (if accepts x devs names
      then merge_loop (merged @ [x])
             (if lbl_device x \<noteq> [] then insert (lbl_device x) devs else devs)
             (if lbl_name x \<noteq> [] then insert (lbl_name x) names else names) rest
      else merge_loop merged devs names rest)"
  by (simp add: accepts_def label_identity_def Let_def)

lemma devices_of_snoc:
  "devices_of (ls @ [x]) = (if lbl_device x \<noteq> [] then insert (lbl_device x) (devices_of ls) else devices_of ls)"
  by (auto simp: devices_of_def)

lemma names_of_snoc:
  "names_of (ls @ [x]) = (if lbl_name x \<noteq> [] then insert (lbl_name x) (names_of ls) else names_of ls)"
  by (auto simp: names_of_def)

lemma merge_global_labels_from: "merge_global_labels a b = merge_from a b"
  by (simp add: merge_global_labels_def merge_from_def devices_of_def names_of_def)

lemma merge_from_Nil: "merge_from m [] = m"
  by (simp add: merge_from_def)

lemma merge_from_Cons:
  "merge_from m (x # rest) =
     (if accepts x (devices_of m) (names_of m) then merge_from (m @ [x]) rest else merge_from m rest)"
  unfolding merge_from_def merge_loop_step by (simp add: devices_of_snoc names_of_snoc)

lemma merge_from_prefix: "\<exists>added. merge_from m new = m @ added \<and> set added \<subseteq> set new"
proof (induction new arbitrary: m)
  case Nil
  then show ?case by (simp add: merge_from_Nil)
next
  case (Cons x rest)
  show ?case
  proof (cases "accepts x (devices_of m) (names_of m)")
    case True
    obtain added where "merge_from (m @ [x]) rest = (m @ [x]) @ added" "set added \<subseteq> set rest"
      using Cons.IH by blast
    then have "merge_from m (x # rest) = m @ (x # added) \<and> set (x # added) \<subseteq> set (x # rest)"
      using True by (auto simp: merge_from_Cons)
    then show ?thesis by blast
  next
    case False
    obtain added where "merge_from m rest = m @ added" "set added \<subseteq> set rest"
      using Cons.IH by blast
    then have "merge_from m (x # rest) = m @ added \<and> set added \<subseteq> set (x # rest)"
      using False by (auto simp: merge_from_Cons)
    then show ?thesis by blast
  qed
qed

lemma devices_of_mono: "set a \<subseteq> set b \<Longrightarrow> devices_of a \<subseteq> devices_of b"
  by (auto simp: devices_of_def)

lemma names_of_mono: "set a \<subseteq> set b \<Longrightarrow> names_of a \<subseteq> names_of b"
  by (auto simp: names_of_def)

lemma member_not_accepted:
  assumes "x \<in> set m"
  shows "\<not> accepts x (devices_of m) (names_of m)"
proof (cases "lbl_device x = []")
  case True
  then show ?thesis using assms
    by (auto simp: accepts_def label_identity_def names_of_def)
next
  case False
  then show ?thesis using assms
    by (auto simp: accepts_def label_identity_def devices_of_def)
qed

lemma not_accepted_mono:
  assumes "\<not> accepts x (devices_of a) (names_of a)" "set a \<subseteq> set b"
  shows "\<not> accepts x (devices_of b) (names_of b)"
  using assms devices_of_mono[OF assms(2)] names_of_mono[OF assms(2)]
  by (auto simp: accepts_def)

lemma merge_from_rejects_all:
  "\<forall>x \<in> set new. \<not> accepts x (devices_of (merge_from m new)) (names_of (merge_from m new))"
proof (induction new arbitrary: m)
  case Nil
  then show ?case by simp
next
  case (Cons x rest)
  show ?case
  proof (cases "accepts x (devices_of m) (names_of m)")
    case True
    then have eq: "merge_from m (x # rest) = merge_from (m @ [x]) rest" by (simp add: merge_from_Cons)
    obtain added where "merge_from (m @ [x]) rest = (m @ [x]) @ added"
      using merge_from_prefix by blast
    then have "x \<in> set (merge_from (m @ [x]) rest)" by simp
    then have "\<not> accepts x (devices_of (merge_from (m @ [x]) rest)) (names_of (merge_from (m @ [x]) rest))"
      by (rule member_not_accepted)
    then show ?thesis using Cons.IH[of "m @ [x]"] eq by simp
  next
    case False
    then have eq: "merge_from m (x # rest) = merge_from m rest" by (simp add: merge_from_Cons)
    obtain added where "merge_from m rest = m @ added" using merge_from_prefix by blast
    then have "set m \<subseteq> set (merge_from m rest)" by simp
    from not_accepted_mono[OF False this] show ?thesis using Cons.IH[of m] eq by simp
  qed
qed




lemma not_accepted_clash:
  assumes "\<not> accepts x (devices_of m) (names_of m)" "label_identity x \<noteq> []"
  shows "\<exists>y \<in> set m. clashes x y"
proof -
  have "label_identity x \<in> devices_of m \<or> lbl_name x \<in> names_of m"
    using assms by (simp add: accepts_def)
  then show ?thesis
  proof
    assume "label_identity x \<in> devices_of m"
    then obtain y where "y \<in> set m" "lbl_device y = label_identity x" "lbl_device y \<noteq> []"
      by (auto simp: devices_of_def)
    then have "y \<in> set m \<and> clashes x y" by (simp add: clashes_def devices_of_def)
    then show ?thesis by blast
  next
    assume "lbl_name x \<in> names_of m"
    then obtain y where "y \<in> set m" "lbl_name y = lbl_name x" "lbl_name y \<noteq> []"
      by (auto simp: names_of_def)
    then have "y \<in> set m \<and> clashes x y" by (simp add: clashes_def names_of_def)
    then show ?thesis by blast
  qed
qed

lemma merge_from_covers:
  assumes "collision_free all" "set m \<subseteq> set all" "set new \<subseteq> set all"
  shows "set (merge_from m new) = set m \<union> set new"
  using assms(2,3)
proof (induction new arbitrary: m)
  case Nil
  then show ?case by (simp add: merge_from_Nil)
next
  case (Cons x rest)
  have xin: "x \<in> set all" and rest: "set rest \<subseteq> set all" using Cons.prems(2) by simp_all
  show ?case
  proof (cases "accepts x (devices_of m) (names_of m)")
    case True
    have "set (m @ [x]) \<subseteq> set all" using Cons.prems(1) xin by simp
    then have "set (merge_from (m @ [x]) rest) = set (m @ [x]) \<union> set rest"
      using rest by (rule Cons.IH)
    moreover have "merge_from m (x # rest) = merge_from (m @ [x]) rest"
      using True by (simp add: merge_from_Cons)
    ultimately show ?thesis by simp
  next
    case False
    have "label_identity x \<noteq> []" using assms(1) xin unfolding collision_free_def by blast
    from not_accepted_clash[OF False this] obtain y where y: "y \<in> set m" "clashes x y" by blast
    have "y \<in> set all" using y(1) Cons.prems(1) by blast
    then have "x = y" using assms(1) xin y(2) unfolding collision_free_def by blast
    then have xm: "x \<in> set m" using y(1) by simp
    have "set (merge_from m rest) = set m \<union> set rest"
      using Cons.prems(1) rest by (rule Cons.IH)
    moreover have "merge_from m (x # rest) = merge_from m rest"
      using False by (simp add: merge_from_Cons)
    ultimately show ?thesis using xm by auto
  qed
qed


lemma merge_from_subseq: "\<exists>added. merge_from m new = m @ added \<and> subseq added new"
proof (induction new arbitrary: m)
  case Nil
  then show ?case by (simp add: merge_from_Nil)
next
  case (Cons x rest)
  show ?case
  proof (cases "accepts x (devices_of m) (names_of m)")
    case True
    obtain added where a: "merge_from (m @ [x]) rest = (m @ [x]) @ added" "subseq added rest"
      using Cons.IH by blast
    have "merge_from m (x # rest) = m @ (x # added)"
      using True a(1) by (simp add: merge_from_Cons)
    moreover have "subseq (x # added) (x # rest)" using a(2) by simp
    ultimately show ?thesis by blast
  next
    case False
    obtain added where a: "merge_from m rest = m @ added" "subseq added rest"
      using Cons.IH by blast
    have "merge_from m (x # rest) = m @ added"
      using False a(1) by (simp add: merge_from_Cons)
    moreover have "subseq added (x # rest)" using a(2) by (rule list_emb_Cons)
    ultimately show ?thesis by blast
  qed
qed

lemma merge_tail_subseq: "subseq (drop (length a) (merge_global_labels a b)) b"
proof -
  obtain added where "merge_from a b = a @ added" "subseq added b"
    using merge_from_subseq by blast
  then show ?thesis by (simp add: merge_global_labels_from)
qed

lemma merge_rejects_all:
  "\<forall>x \<in> set b. \<not> accepts x (devices_of (merge_global_labels a b)) (names_of (merge_global_labels a b))"
  unfolding merge_global_labels_from by (rule merge_from_rejects_all)







lemma s4_merge: "merge_global_labels [] ([start_button] @ [start_button, sensor1]) = [start_button, sensor1]"
  by (simp add: merge_global_labels_def start_button_def sensor1_def)

subsection \<open>Generating the code of a project\<close>

lemma generate_stages_fails:
  "\<exists>stg \<in> set stgs. generation_fails gen stg \<Longrightarrow> \<exists>msg. generate_stages gen stgs acc labels = Inl msg"
proof (induction stgs arbitrary: acc labels)
  case Nil
  then show ?case by simp
next
  case (Cons stg rest)
  show ?case
  proof (cases "generation_fails gen stg")
    case True
    then show ?thesis by (auto simp: generation_fails_def split: sum.splits)
  next
    case False
    then obtain result where r: "gen (stage_data stg) = Inr result" "res_success result"
      by (auto simp: generation_fails_def split: sum.splits)
    from Cons.prems False have "\<exists>s \<in> set rest. generation_fails gen s" by auto
    from Cons.IH[OF this] show ?thesis using r by simp
  qed
qed

text \<open>
  C2. If the generation of any stage of the project fails (the generator raises, or
  its result is not a success), the request ends with an error and the database
  after the request is the database before it: no code row is deleted, created or
  changed.
\<close>

theorem generate_code_all_or_nothing:
  assumes "stage_get_by_id d request_stage_id = Some stage"
      and "stg \<in> set (stage_get_by_project d (s_project_id stage))"
      and "generation_fails gen stg"
  shows "snd (generate_code gen unified_diff request_stage_id current_user_id d) = d
         \<and> codes (snd (generate_code gen unified_diff request_stage_id current_user_id d)) = codes d
         \<and> (\<exists>e. fst (generate_code gen unified_diff request_stage_id current_user_id d) = Inl e)"
proof -
  obtain msg where "generate_stages gen (stage_get_by_project d (s_project_id stage)) [] [] = Inl msg"
    using generate_stages_fails[of "stage_get_by_project d (s_project_id stage)" gen "[]" "[]"] assms(2,3)
    by blast
  then show ?thesis
    using assms(1) by (simp add: generate_code_def Let_def split: option.splits)
qed

lemma codes_create_version_entry:
  "codes (snd (create_version_entry ud cid sid uid a od nd md d)) = codes d"
  by (simp add: create_version_entry_def utcnow_def Let_def split_def split: option.splits)

lemma codes_code_create:
  "codes (snd (code_create pid sid gl ll body pn et md pbs fns fbs d))
     = codes d @ [fst (code_create pid sid gl ll body pn et md pbs fns fbs d)]"
  "gc_stage_id (fst (code_create pid sid gl ll body pn et md pbs fns fbs d)) = sid"
  "global_labels (fst (code_create pid sid gl ll body pn et md pbs fns fbs d)) = gl"
  by (simp_all add: code_create_def utcnow_def Let_def split_def)

lemma save_stages_Cons_codes:
  "\<exists>c d1. gc_stage_id c = Some (s_id stg) \<and> global_labels c = merged
      \<and> codes d1 = filter (\<lambda>c. gc_stage_id c \<noteq> Some (s_id stg)) (codes d) @ [c]
      \<and> save_stages ud uid merged ((stg, result) # rest) d = save_stages ud uid merged rest d1"
proof -
  let ?d1 = "code_delete_by_stage (s_id stg) d"
  let ?cc = "code_create (s_project_id stg) (Some (s_id stg)) merged
               (res_local_labels result) (res_program_body result)
               (md_program_name (res_metadata result)) (md_execution_type (res_metadata result))
               (res_metadata result) (res_program_blocks result) (res_functions result)
               (res_function_blocks result) ?d1"
  let ?d3 = "snd (create_version_entry ud (gc_id (fst ?cc)) (s_id stg) uid ''generate_code''
               None
               (Some [(''program_body'', PyStr (res_program_body result)),
                      (''global_labels_count'', PyInt (int (length merged))),
                      (''local_labels_count'', PyInt (int (length (res_local_labels result)))),
                      (''program_blocks_count'', PyInt (int (length (res_program_blocks result)))),
                      (''functions_count'', PyInt (int (length (res_functions result)))),
                      (''function_blocks_count'', PyInt (int (length (res_function_blocks result))))])
               (Some [(''description'', PyStr ''Code generated for all stages''),
                      (''program_name'', PyStr (md_program_name (res_metadata result)))])
               (snd ?cc))"
  have 1: "save_stages ud uid merged ((stg, result) # rest) d = save_stages ud uid merged rest ?d3"
    by (simp add: Let_def split_def)
  have 2: "codes ?d3 = filter (\<lambda>c. gc_stage_id c \<noteq> Some (s_id stg)) (codes d) @ [fst ?cc]"
    by (simp add: codes_create_version_entry codes_code_create code_delete_by_stage_def)
  have 3: "gc_stage_id (fst ?cc) = Some (s_id stg)" "global_labels (fst ?cc) = merged"
    by (simp_all add: codes_code_create)
  show ?thesis using 1 2 3 by blast
qed

lemma save_stages_labels:
  assumes "\<forall>c \<in> set (codes d). gc_stage_id c \<in> Some ` P \<longrightarrow> global_labels c = merged"
  shows "\<forall>c \<in> set (codes (save_stages ud uid merged rs d)).
           gc_stage_id c \<in> Some ` (P \<union> s_id ` fst ` set rs) \<longrightarrow> global_labels c = merged"
  using assms
proof (induction rs arbitrary: d P)
  case Nil
  then show ?case by simp
next
  case (Cons sr rest)
  obtain stg result where sr: "sr = (stg, result)" by (cases sr)
  obtain c d1 where c: "gc_stage_id c = Some (s_id stg)" "global_labels c = merged"
     "codes d1 = filter (\<lambda>c. gc_stage_id c \<noteq> Some (s_id stg)) (codes d) @ [c]"
     "save_stages ud uid merged ((stg, result) # rest) d = save_stages ud uid merged rest d1"
    using save_stages_Cons_codes by blast
  have inv: "\<forall>c \<in> set (codes d1). gc_stage_id c \<in> Some ` (insert (s_id stg) P) \<longrightarrow> global_labels c = merged"
    using Cons.prems c(1,2,3) by auto
  have "insert (s_id stg) P \<union> s_id ` fst ` set rest = P \<union> s_id ` fst ` set (sr # rest)"
    using sr by auto
  then show ?case using Cons.IH[OF inv] c(4) sr by simp
qed

lemma save_stages_rows_exist:
  assumes "(\<exists>c \<in> set (codes d). gc_stage_id c = Some x) \<or> x \<in> s_id ` fst ` set rs"
  shows "\<exists>c \<in> set (codes (save_stages ud uid merged rs d)). gc_stage_id c = Some x"
  using assms
proof (induction rs arbitrary: d)
  case Nil
  then show ?case by simp
next
  case (Cons sr rest)
  obtain stg result where sr: "sr = (stg, result)" by (cases sr)
  obtain c d1 where c: "gc_stage_id c = Some (s_id stg)" "global_labels c = merged"
     "codes d1 = filter (\<lambda>c. gc_stage_id c \<noteq> Some (s_id stg)) (codes d) @ [c]"
     "save_stages ud uid merged ((stg, result) # rest) d = save_stages ud uid merged rest d1"
    using save_stages_Cons_codes by blast
  have "(\<exists>c \<in> set (codes d1). gc_stage_id c = Some x) \<or> x \<in> s_id ` fst ` set rest"
  proof (cases "x = s_id stg")
    case True
    then show ?thesis using c(1,3) by auto
  next
    case False
    then show ?thesis using Cons.prems c(3) sr by auto
  qed
  from Cons.IH[OF this] show ?case using c(4) sr by simp
qed

lemma generate_stages_results:
  "generate_stages gen stgs acc labels = Inr (results, all_labels) \<Longrightarrow>
   map fst results = map fst acc @ stgs"
proof (induction stgs arbitrary: acc labels)
  case Nil
  then show ?case by simp
next
  case (Cons stg rest)
  then show ?case by (auto split: sum.splits if_splits)
qed

lemma generate_code_success:
  assumes "generate_code gen ud rsid uid d = (Inr rsp, d')"
      and "stage_get_by_id d rsid = Some stage"
  shows "\<exists>results labels.
           generate_stages gen (stage_get_by_project d (s_project_id stage)) [] [] = Inr (results, labels)
           \<and> d' = save_stages ud uid (merge_global_labels [] labels) results d
           \<and> rsp_global_labels rsp = merge_global_labels [] labels"
  using assms
  by (auto simp: generate_code_def Let_def split: option.splits if_splits sum.splits prod.splits)

lemma generate_stages_labels:
  "generate_stages gen stgs acc labels = Inr (results, all_labels) \<Longrightarrow>
   all_labels = labels @ emitted_labels gen stgs"
proof (induction stgs arbitrary: acc labels)
  case Nil
  then show ?case by (simp add: emitted_labels_def)
next
  case (Cons stg rest)
  from Cons.prems obtain result where r: "gen (stage_data stg) = Inr result" "res_success result"
    "generate_stages gen rest (acc @ [(stg, result)]) (labels @ res_global_labels result)
       = Inr (results, all_labels)"
    by (auto split: sum.splits if_splits)
  have "all_labels = (labels @ res_global_labels result) @ emitted_labels gen rest"
    using r(3) by (rule Cons.IH)
  moreover have "emitted_labels gen (stg # rest) = res_global_labels result @ emitted_labels gen rest"
    using r(1) by (simp add: emitted_labels_def)
  ultimately show ?case by simp
qed

text \<open>
  C3. After a successful run of the generate-all-stages request, every stage of the
  project has a code row, and all code rows of all its stages hold the same list of
  global labels: for stages A and B of the project,
  \<open>code(A).globalLabels = code(B).globalLabels\<close>.  This list is the one the response
  carries, and it is the merged union of the global labels the stages emitted: the
  merge, started from the empty list, of the emitted labels of all stages in stage
  order.  It is a subsequence of the emitted labels, no emitted label would still be
  accepted by it (each one is in it, or repeats a device or name of it, or has no
  identity), and when the emitted labels are free of collisions it holds exactly
  the emitted labels.
\<close>

theorem generate_code_unifies_global_labels:
  assumes "generate_code gen unified_diff request_stage_id current_user_id d = (Inr rsp, d')"
      and "stage_get_by_id d request_stage_id = Some stage"
      and "a \<in> set (stage_get_by_project d (s_project_id stage))"
      and "b \<in> set (stage_get_by_project d (s_project_id stage))"
  shows "codes_of_stage d' (s_id a) \<noteq> [] \<and> codes_of_stage d' (s_id b) \<noteq> []
         \<and> (\<forall>ca \<in> set (codes_of_stage d' (s_id a)). \<forall>cb \<in> set (codes_of_stage d' (s_id b)).
               global_labels ca = global_labels cb
               \<and> global_labels ca = rsp_global_labels rsp
               \<and> global_labels ca
                   = merge_global_labels []
                       (emitted_labels gen (stage_get_by_project d (s_project_id stage))))
         \<and> subseq (rsp_global_labels rsp)
              (emitted_labels gen (stage_get_by_project d (s_project_id stage)))
         \<and> (\<forall>x \<in> set (emitted_labels gen (stage_get_by_project d (s_project_id stage))).
               \<not> accepts x (devices_of (rsp_global_labels rsp)) (names_of (rsp_global_labels rsp)))
         \<and> (collision_free (emitted_labels gen (stage_get_by_project d (s_project_id stage)))
              \<longrightarrow> set (rsp_global_labels rsp)
                    = set (emitted_labels gen (stage_get_by_project d (s_project_id stage))))"
proof -
  let ?all = "stage_get_by_project d (s_project_id stage)"
  let ?em = "emitted_labels gen ?all"
  obtain results labels where g:
    "generate_stages gen ?all [] [] = Inr (results, labels)"
    "d' = save_stages unified_diff current_user_id (merge_global_labels [] labels) results d"
    "rsp_global_labels rsp = merge_global_labels [] labels"
    using generate_code_success[OF assms(1,2)] by blast
  have labels: "labels = ?em" using generate_stages_labels[OF g(1)] by simp
  have rsp: "rsp_global_labels rsp = merge_global_labels [] ?em" using g(3) labels by simp
  have ids: "map fst results = ?all" using generate_stages_results[OF g(1)] by simp
  have mem: "s_id x \<in> s_id ` fst ` set results" if "x \<in> set ?all" for x
  proof -
    have "x \<in> set (map fst results)" using that ids by simp
    then show ?thesis by auto
  qed
  have lab: "\<forall>c \<in> set (codes d'). gc_stage_id c \<in> Some ` ({} \<union> s_id ` fst ` set results)
               \<longrightarrow> global_labels c = merge_global_labels [] labels"
    unfolding g(2) by (rule save_stages_labels) simp
  have ex: "\<exists>c \<in> set (codes d'). gc_stage_id c = Some (s_id x)" if "x \<in> set ?all" for x
    unfolding g(2) by (rule save_stages_rows_exist) (use mem[OF that] in simp)
  have eq: "global_labels c = rsp_global_labels rsp"
    if "x \<in> set ?all" "c \<in> set (codes_of_stage d' (s_id x))" for x c
    using lab mem[OF that(1)] that(2) g(3) by (auto simp: codes_of_stage_def)
  have ne: "codes_of_stage d' (s_id x) \<noteq> []" if "x \<in> set ?all" for x
    using ex[OF that] by (auto simp: codes_of_stage_def filter_empty_conv)
  have rows: "\<forall>ca \<in> set (codes_of_stage d' (s_id a)). \<forall>cb \<in> set (codes_of_stage d' (s_id b)).
               global_labels ca = global_labels cb
               \<and> global_labels ca = rsp_global_labels rsp
               \<and> global_labels ca = merge_global_labels [] ?em"
    using eq[OF assms(3)] eq[OF assms(4)] rsp by simp
  have sub: "subseq (rsp_global_labels rsp) ?em"
    using merge_tail_subseq[of "[]" ?em] rsp by simp
  have rej: "\<forall>x \<in> set ?em. \<not> accepts x (devices_of (rsp_global_labels rsp)) (names_of (rsp_global_labels rsp))"
    unfolding rsp by (rule merge_rejects_all)
  have cov: "set (rsp_global_labels rsp) = set ?em" if cf: "collision_free ?em"
  proof -
    have "set (merge_from [] ?em) = set [] \<union> set ?em"
      by (rule merge_from_covers[OF cf]) simp_all
    then show ?thesis by (simp add: rsp merge_global_labels_from)
  qed
  show ?thesis using ne[OF assms(3)] ne[OF assms(4)] rows sub rej cov by blast
qed

lemma s4_all_stages: "stage_get_by_project s4_db 1 = [s4_stage_a, s4_stage_b]"
  by (simp add: stage_get_by_project_def s4_db_def s4_stage_a_def s4_stage_b_def)

lemma s4_get_stage: "stage_get_by_id s4_db 1 = Some s4_stage_a"
  by (simp add: stage_get_by_id_def first_where_def s4_db_def s4_stage_a_def s4_stage_b_def)

lemma s4_fails: "generation_fails s4_failing_gen s4_stage_b"
  by (simp add: generation_fails_def s4_failing_gen_def stage_data_def py_get_def s4_stage_b_def)

lemma s4_generate:
  "generate_stages s4_gen [s4_stage_a, s4_stage_b] [] []
     = Inr ([(s4_stage_a, s4_result [start_button]), (s4_stage_b, s4_result [start_button, sensor1])],
            [start_button, start_button, sensor1])"
  by (simp add: s4_gen_def stage_data_def py_get_def s4_stage_a_def s4_stage_b_def s4_result_def)

lemma s4_merged: "merge_global_labels [] [start_button, start_button, sensor1] = [start_button, sensor1]"
  by (simp add: merge_global_labels_def start_button_def sensor1_def)

lemma s4_success: "\<not> isl (fst (generate_code s4_gen no_diff 1 1 s4_db))"
proof -
  have p: "project_get_by_id s4_db 1 = Some \<lparr>p_id = 1, p_name = ''Line'', owner_id = 1\<rparr>"
    by (simp add: project_get_by_id_def first_where_def s4_db_def)
  have a: "s_project_id s4_stage_a = 1" "s_id s4_stage_a = 1" "is_validated s4_stage_a"
     "is_validated s4_stage_b"
    by (simp_all add: s4_stage_a_def s4_stage_b_def)
  show ?thesis
    by (simp add: generate_code_def s4_get_stage a p s4_all_stages s4_generate first_where_def Let_def
          del: One_nat_def generate_stages.simps save_stages.simps)
qed

text \<open>Scenario S4 with a generator that fails on the second stage.\<close>

theorem generate_code_all_or_nothing_witness:
  "stage_get_by_id s4_db 1 = Some s4_stage_a
   \<and> s4_stage_b \<in> set (stage_get_by_project s4_db (s_project_id s4_stage_a))
   \<and> generation_fails s4_failing_gen s4_stage_b
   \<and> snd (generate_code s4_failing_gen no_diff 1 1 s4_db) = s4_db
   \<and> codes (snd (generate_code s4_failing_gen no_diff 1 1 s4_db)) = codes s4_db
   \<and> (\<exists>e. fst (generate_code s4_failing_gen no_diff 1 1 s4_db) = Inl e)"
proof -
  have b: "s4_stage_b \<in> set (stage_get_by_project s4_db (s_project_id s4_stage_a))"
    using s4_all_stages by (simp add: s4_stage_a_def del: One_nat_def)
  show ?thesis
    using s4_get_stage b s4_fails
      generate_code_all_or_nothing[OF s4_get_stage b s4_fails, of no_diff 1]
    by blast
qed

lemma s4_emitted:
  "emitted_labels s4_gen [s4_stage_a, s4_stage_b] = [start_button, start_button, sensor1]"
  by (simp add: emitted_labels_def s4_gen_def stage_data_def py_get_def s4_stage_a_def s4_stage_b_def
        s4_result_def)

text \<open>Scenario S4 with the generator that succeeds on both stages: both rows and the
  response hold \<open>[Start_Button, Sensor1]\<close>.\<close>

theorem generate_code_unifies_global_labels_witness:
  "generate_code s4_gen no_diff 1 1 s4_db
     = (Inr (projr (fst (generate_code s4_gen no_diff 1 1 s4_db))),
        snd (generate_code s4_gen no_diff 1 1 s4_db))
   \<and> stage_get_by_id s4_db 1 = Some s4_stage_a
   \<and> s4_stage_a \<in> set (stage_get_by_project s4_db (s_project_id s4_stage_a))
   \<and> s4_stage_b \<in> set (stage_get_by_project s4_db (s_project_id s4_stage_a))
   \<and> emitted_labels s4_gen (stage_get_by_project s4_db (s_project_id s4_stage_a))
       = [start_button, start_button, sensor1]
   \<and> codes_of_stage (snd (generate_code s4_gen no_diff 1 1 s4_db)) (s_id s4_stage_a) \<noteq> []
   \<and> codes_of_stage (snd (generate_code s4_gen no_diff 1 1 s4_db)) (s_id s4_stage_b) \<noteq> []
   \<and> global_labels (hd (codes_of_stage (snd (generate_code s4_gen no_diff 1 1 s4_db)) (s_id s4_stage_a)))
       = [start_button, sensor1]
   \<and> global_labels (hd (codes_of_stage (snd (generate_code s4_gen no_diff 1 1 s4_db)) (s_id s4_stage_b)))
       = [start_button, sensor1]
   \<and> rsp_global_labels (projr (fst (generate_code s4_gen no_diff 1 1 s4_db))) = [start_button, sensor1]"
proof -
  let ?x = "generate_code s4_gen no_diff 1 1 s4_db"
  let ?ca = "codes_of_stage (snd ?x) (s_id s4_stage_a)"
  let ?cb = "codes_of_stage (snd ?x) (s_id s4_stage_b)"
  let ?all = "stage_get_by_project s4_db (s_project_id s4_stage_a)"
  have e: "?x = (Inr (projr (fst ?x)), snd ?x)"
    using s4_success by (simp add: prod_eq_iff del: One_nat_def)
  have all: "?all = [s4_stage_a, s4_stage_b]"
    using s4_all_stages by (simp add: s4_stage_a_def del: One_nat_def)
  have a: "s4_stage_a \<in> set ?all" unfolding all by simp
  have b: "s4_stage_b \<in> set ?all" unfolding all by simp
  have em: "emitted_labels s4_gen ?all = [start_button, start_button, sensor1]"
    unfolding all by (rule s4_emitted)
  note unified = generate_code_unifies_global_labels[OF e s4_get_stage a b]
  have na: "?ca \<noteq> []" and nb: "?cb \<noteq> []"
    using unified by blast+
  have ha: "hd ?ca \<in> set ?ca" using na by (rule hd_in_set)
  have hb: "hd ?cb \<in> set ?cb" using nb by (rule hd_in_set)
  have eq: "global_labels (hd ?ca) = global_labels (hd ?cb)
            \<and> global_labels (hd ?ca) = rsp_global_labels (projr (fst ?x))
            \<and> global_labels (hd ?ca) = merge_global_labels [] (emitted_labels s4_gen ?all)"
    using unified ha hb by blast
  have e1: "global_labels (hd ?ca) = global_labels (hd ?cb)" using eq by (rule conjunct1)
  have e2: "global_labels (hd ?ca) = rsp_global_labels (projr (fst ?x))"
    using eq by (rule conjunct1[OF conjunct2])
  have e3: "global_labels (hd ?ca) = merge_global_labels [] (emitted_labels s4_gen ?all)"
    using eq by (rule conjunct2[OF conjunct2])
  have m: "global_labels (hd ?ca) = [start_button, sensor1]"
    using e3 unfolding em s4_merged .
  have mb: "global_labels (hd ?cb) = [start_button, sensor1]"
    using e1 m by (rule subst)
  have mr: "rsp_global_labels (projr (fst ?x)) = [start_button, sensor1]"
    using e2 m by (rule subst)
  show ?thesis
    using e s4_get_stage a b em na nb m mb mr by blast
qed

subsection \<open>Input validation\<close>

lemma split_ws_word: "py_split_ws_from [] (''a '' @ rest) = ''a'' # py_split_ws_from [] rest"
  by (simp add: py_isspace_def)

lemma word_count_replicate: "word_count (concat (replicate n ''a '')) = n"
proof -
  have "length (py_split_ws_from [] (concat (replicate n ''a ''))) = n"
  proof (induction n)
    case 0
    then show ?case by simp
  next
    case (Suc n)
    have "concat (replicate (Suc n) ''a '') = ''a '' @ concat (replicate n ''a '')" by simp
    then show ?case using Suc by (simp only: split_ws_word) simp
  qed
  then show ?thesis by (simp add: word_count_def py_split_ws_def)
qed

lemma py_strip_nonblank: "s \<noteq> [] \<Longrightarrow> \<not> py_isspace (hd s) \<Longrightarrow> py_strip s \<noteq> []"
  by (cases s) (auto simp: py_strip_def)

lemma long_text_count: "word_count long_text = 5001"
  by (simp add: long_text_def word_count_replicate)

lemma long_text_nonblank: "long_text \<noteq> [] \<and> py_strip long_text \<noteq> []"
proof -
  have n: "(5001::nat) = Suc 5000" by simp
  have e: "long_text = ''a '' @ concat (replicate 5000 ''a '')"
    unfolding long_text_def n by (simp only: replicate_Suc concat.simps)
  have "hd long_text = CHR ''a''" unfolding e by (simp only: append_Cons hd_conv_nth list.sel)
  then have "\<not> py_isspace (hd long_text)" by (simp add: py_isspace_def)
  moreover have "long_text \<noteq> []" unfolding e by (simp only: append_Cons) simp
  ultimately show ?thesis using py_strip_nonblank by blast
qed

lemma planner_validate_input_valid:
  "chk_valid (planner_validate_input t) = (py_strip t \<noteq> [] \<and> 50 \<le> word_count t)"
  by (auto simp: planner_validate_input_def py_strip_def)

lemma input_validator_validate_valid:
  "chk_valid (input_validator_validate t)
     = (py_strip t \<noteq> [] \<and> 50 \<le> word_count t \<and> word_count t \<le> 5000)"
  by (auto simp: input_validator_validate_def py_strip_def min_word_count_def max_word_count_def)

lemma create_plan_rejects:
  "isl (create_plan plan_steps t) = (py_strip t = [] \<or> word_count t < 50)"
  using planner_validate_input_valid[of t] by (auto simp: create_plan_def Let_def)

text \<open>
  C8. The claim: plan creation rejects the input exactly when the text is empty or
  blank, or has fewer than 50 words, or has more than 5000 words.  The lemmas above
  give what each check accepts: \<open>InputValidator.validate\<close> has both bounds, while
  \<open>_validate_input\<close>, the check \<open>create_plan\<close> calls, has only the lower one.  A
  text of 5001 words passes the planner's check and plan creation goes on, where the
  claim (and the sibling validator) reject it.
\<close>

theorem create_plan_accepts_5001_words:
  "word_count long_text = 5001
   \<and> chk_valid (planner_validate_input long_text)
   \<and> create_plan word_count long_text = Inr 5001
   \<and> \<not> chk_valid (input_validator_validate long_text)"
  using long_text_count long_text_nonblank
  by (simp add: planner_validate_input_valid input_validator_validate_valid create_plan_def)

subsection \<open>Dependency validation\<close>

lemma check_endpoints_errors:
  "fst (check_endpoints nums deps errs ws)
     = errs @ concat (map (\<lambda>dep. (if from_stage dep \<notin> set nums then [NonExistentStage (from_stage dep)] else [])
                                @ (if to_stage dep \<notin> set nums then [NonExistentStage (to_stage dep)] else [])) deps)"
  by (induction deps arbitrary: errs ws) (simp_all add: Let_def)

lemma check_endpoints_warnings:
  "snd (check_endpoints nums deps errs ws)
     = ws @ map (\<lambda>dep. BackwardsDependency (from_stage dep) (to_stage dep))
              (filter (\<lambda>dep. from_stage dep \<ge> to_stage dep) deps)"
  by (induction deps arbitrary: errs ws) (simp_all add: Let_def)

lemma validate_dependencies_valid:
  "dv_valid (validate_dependencies stage_list deps)
     = (\<forall>dep \<in> set deps. from_stage dep \<in> ps_stage_number ` set stage_list
                        \<and> to_stage dep \<in> ps_stage_number ` set stage_list)"
proof -
  have "dv_valid (validate_dependencies stage_list deps)
          = (fst (check_endpoints (map ps_stage_number stage_list) deps [] []) = [])"
    by (simp add: validate_dependencies_def Let_def split_def)
  then show ?thesis by (auto simp: check_endpoints_errors)
qed

lemma validate_dependencies_backwards:
  "dep \<in> set deps \<Longrightarrow> from_stage dep \<ge> to_stage dep \<Longrightarrow>
   BackwardsDependency (from_stage dep) (to_stage dep) \<in> set (dv_warnings (validate_dependencies stage_list deps))"
  by (auto simp: validate_dependencies_def Let_def split_def check_endpoints_warnings)

lemma reachable_pass_sound:
  assumes "\<forall>x \<in> R. graph_reachable deps x" "set ds \<subseteq> set deps"
  shows "\<forall>x \<in> reachable_pass R ds. graph_reachable deps x"
  using assms
proof (induction ds arbitrary: R)
  case Nil
  then show ?case by simp
next
  case (Cons dep rest)
  have rest: "set rest \<subseteq> set deps" and dep: "dep \<in> set deps" using Cons.prems(2) by simp_all
  show ?case
  proof (cases "from_stage dep \<in> R")
    case True
    then have "graph_reachable deps (from_stage dep)" using Cons.prems(1) by blast
    then have "graph_reachable deps (to_stage dep)"
      using dep by (rule graph_reachable.step) simp
    then have "\<forall>x \<in> insert (to_stage dep) R. graph_reachable deps x" using Cons.prems(1) by simp
    then have "\<forall>x \<in> reachable_pass (insert (to_stage dep) R) rest. graph_reachable deps x"
      using rest by (rule Cons.IH)
    moreover have "reachable_pass R (dep # rest) = reachable_pass (insert (to_stage dep) R) rest"
      using True by simp
    ultimately show ?thesis by (simp only:)
  next
    case False
    have "\<forall>x \<in> reachable_pass R rest. graph_reachable deps x"
      using Cons.prems(1) rest by (rule Cons.IH)
    moreover have "reachable_pass R (dep # rest) = reachable_pass R rest"
      using False by simp
    ultimately show ?thesis by (simp only:)
  qed
qed

lemma unreachable_stage_warned:
  assumes "n \<in> ps_stage_number ` set stage_list" "n \<noteq> 0" "\<not> graph_reachable deps n"
  shows "MayBeUnreachable n \<in> set (dv_warnings (validate_dependencies stage_list deps))"
proof -
  have "\<forall>x \<in> reachable_pass {0} deps. graph_reachable deps x"
    by (rule reachable_pass_sound) (auto intro: graph_reachable.start)
  then have "n \<notin> reachable_pass {0} deps" using assms(3) by blast
  then show ?thesis using assms(1,2)
    by (auto simp: validate_dependencies_def Let_def split_def)
qed

text \<open>
  C9. The claim: valid iff every endpoint is an existing stage number, a warning for
  every dependency with \<open>fromStage >= toStage\<close>, and an unreachable warning exactly
  for the stages other than 0 that are not reachable from 0 in the transition graph.
  The first two parts hold (lemmas \<open>validate_dependencies_valid\<close> and
  \<open>validate_dependencies_backwards\<close>), and every stage that is not reachable is
  warned about (lemma \<open>unreachable_stage_warned\<close>).  The converse fails: the
  reachable set is grown in one pass over the dependencies in list order, so with
  the transitions \<open>1 -> 2\<close>, \<open>0 -> 1\<close> listed in this order stage 2 is reported as
  unreachable although the path \<open>0 -> 1 -> 2\<close> reaches it.
\<close>

theorem reachable_stage_reported_unreachable:
  "validate_dependencies s1_stages s1_dependencies_reversed
     = \<lparr>dv_valid = True, dv_errors = [], dv_warnings = [MayBeUnreachable 2]\<rparr>
   \<and> graph_reachable s1_dependencies_reversed 2"
proof -
  have "graph_reachable s1_dependencies_reversed (to_stage \<lparr>from_stage = 0, to_stage = 1, condition = ''start pressed''\<rparr>)"
    by (rule graph_reachable.step[OF graph_reachable.start]) (simp_all add: s1_dependencies_reversed_def)
  then have r1: "graph_reachable s1_dependencies_reversed 1" by simp
  have "graph_reachable s1_dependencies_reversed (to_stage \<lparr>from_stage = 1, to_stage = 2, condition = ''safety ok''\<rparr>)"
    by (rule graph_reachable.step[OF r1]) (simp_all add: s1_dependencies_reversed_def)
  then have r2: "graph_reachable s1_dependencies_reversed 2" by simp
  have "validate_dependencies s1_stages s1_dependencies_reversed
     = \<lparr>dv_valid = True, dv_errors = [], dv_warnings = [MayBeUnreachable 2]\<rparr>"
    by (simp add: validate_dependencies_def s1_stages_def s1_dependencies_reversed_def Let_def)
  then show ?thesis using r2 by simp
qed

subsection \<open>The parsed validation result\<close>

lemma parse_categorized_line_valid:
  "vr_valid (st_result (parse_categorized_line ls st)) = vr_valid (st_result st)"
  by (simp add: parse_categorized_line_def open_issue_def Let_def split: option.splits)

lemma parse_analysis_line_valid:
  "vr_valid (st_result (parse_analysis_line ls st)) = vr_valid (st_result st)"
  by (simp add: parse_analysis_line_def Let_def)

lemma parse_line_valid:
  "vr_valid (st_result (parse_line st line)) = vr_valid (st_result st)"
  by (simp add: parse_line_def Let_def parse_categorized_line_valid parse_analysis_line_valid)

lemma foldl_parse_line_valid:
  "vr_valid (st_result (foldl parse_line st ls)) = vr_valid (st_result st)"
  by (induction ls arbitrary: st) (simp_all add: parse_line_valid)

lemma close_issue_valid:
  "vr_valid (case ci of None \<Rightarrow> r | Some c \<Rightarrow> r\<lparr>categorized_issues := categorized_issues r @ [c]\<rparr>)
     = vr_valid r"
  by (cases ci) simp_all

lemma parse_validation_result_valid:
  "vr_valid (parse_validation_result t)
     = (py_in ''Status: PASS'' t \<or> critical_count (parse_validation_result t) = 0)"
proof -
  let ?r0 = "\<lparr>vr_valid = False, vr_status = ''FAIL'', semantic_analysis = [],
                 logical_consistency = [], safety_compliance = [], issues = [],
                 recommendations = [], categorized_issues = []\<rparr>"
  let ?r1 = "if py_in ''Status: PASS'' t then ?r0\<lparr>vr_valid := True, vr_status := ''PASS''\<rparr> else ?r0"
  let ?st = "foldl parse_line \<lparr>st_result = ?r1, current_section = None, current_issue = None\<rparr>
               (py_split_on CHR 0x0A t)"
  let ?r2 = "case current_issue ?st of None \<Rightarrow> st_result ?st
             | Some ci \<Rightarrow> (st_result ?st)\<lparr>categorized_issues := categorized_issues (st_result ?st) @ [ci]\<rparr>"
  have v: "vr_valid (st_result ?st) = py_in ''Status: PASS'' t"
    by (simp add: foldl_parse_line_valid)
  have v2: "vr_valid ?r2 = py_in ''Status: PASS'' t"
    by (simp only: close_issue_valid v)
  have p: "parse_validation_result t
            = (if critical_count ?r2 = 0 then ?r2\<lparr>vr_valid := True, vr_status := ''PASS''\<rparr> else ?r2)"
    by (simp add: parse_validation_result_def Let_def)
  have c: "critical_count (?r2\<lparr>vr_valid := True, vr_status := ''PASS''\<rparr>) = critical_count ?r2"
    by (simp add: critical_count_def)
  show ?thesis
  proof (cases "critical_count ?r2 = 0")
    case True
    then show ?thesis using p c by simp
  next
    case False
    then show ?thesis using p v2 by simp
  qed
qed

lemma parse_pass_with_critical:
  "parse_validation_result pass_with_critical
     = \<lparr>vr_valid = True, vr_status = ''PASS'', semantic_analysis = [],
        logical_consistency = [], safety_compliance = [], issues = [], recommendations = [],
        categorized_issues =
          [\<lparr>severity = ''critical'', title = ''Missing interlock'',
            ci_description = ''The guard door is not checked.'', recommended_logic = []\<rparr>]\<rparr>"
  by code_simp

text \<open>
  C1. The claim: a parsed result with a critical categorized issue has
  \<open>valid = false\<close> and status FAIL, whatever the \<open>Status:\<close> line says.  The lemma
  \<open>parse_validation_result_valid\<close> gives what the parser does: the result is valid
  iff the text contains \<open>Status: PASS\<close> or no critical issue was parsed.  The early
  test for the literal \<open>Status: PASS\<close> sets \<open>valid\<close>, and the final count of
  critical issues, commented "validation passes only if no CRITICAL categorized
  issues", only ever sets it again and never clears it.
\<close>

theorem critical_issue_with_status_pass:
  "map severity (categorized_issues (parse_validation_result pass_with_critical)) = [''critical'']
   \<and> vr_valid (parse_validation_result pass_with_critical) = True
   \<and> vr_status (parse_validation_result pass_with_critical) = ''PASS''"
  by (simp add: parse_pass_with_critical)

subsection \<open>The code generation request\<close>

lemma request_independent_of_edited_logic:
  "build_generation_request (stage_data (stg\<lparr>edited_logic := e\<rparr>)) ctx
     = build_generation_request (stage_data stg) ctx"
  by (simp add: build_generation_request_def stage_data_def py_get_def)

lemma edited_stage_request_lines:
  "take 2 (drop 8 (py_split_on (CHR 0x0A) (build_generation_request (stage_data edited_stage) None)))
     = [''CONTROL LOGIC:'', ''Start the conveyor'']"
  by code_simp

lemma edited_stage_validation_logic:
  "validation_logic (stage_data edited_stage) = PyStr ''Start after 5 s''"
  by (simp add: validation_logic_def stage_data_def py_get_def edited_stage_def opt_str_def)

text \<open>
  C6. The claim: the request of the code generator embeds the edited logic when there
  is one, and the original logic otherwise.  The request reads
  \<open>stage.get('original_logic', stage.get('edited_logic', ''))\<close>: the route always
  supplies \<open>original_logic\<close>, so the request does not depend on the edited logic
  (lemma \<open>request_independent_of_edited_logic\<close>), while the stage validator, on the
  same dictionary, validates the edited logic.
\<close>

theorem generation_request_ignores_edited_logic:
  "edited_logic edited_stage = Some ''Start after 5 s''
   \<and> take 2 (drop 8 (py_split_on (CHR 0x0A) (build_generation_request (stage_data edited_stage) None)))
       = [''CONTROL LOGIC:'', ''Start the conveyor'']
   \<and> build_generation_request (stage_data edited_stage) None
       = build_generation_request (stage_data (edited_stage\<lparr>edited_logic := None\<rparr>)) None
   \<and> validation_logic (stage_data edited_stage) = PyStr ''Start after 5 s''"
  using edited_stage_request_lines edited_stage_validation_logic
    request_independent_of_edited_logic[where stg=edited_stage and e=None and ctx=None]
  by (simp add: edited_stage_def del: One_nat_def)

subsection \<open>The code parser\<close>





















end
